theory Spec2Isabelle
  imports
    Main
    "HOL-Library.Sublist"
    "HOL-Library.Multiset"
    "HOL-Library.Char_ord"
    "HOL-Library.List_Lexorder"
begin

section \<open>cbuild: a shallow embedding of the pipeline steps\<close>

text \<open>
  The development follows \<^verbatim>\<open>src/cbuild1.0.cpp\<close> (and, where named, its predecessor
  \<^verbatim>\<open>src/cbuild.cpp\<close>). The program drives external tools through the shell and
  the file system through \<^verbatim>\<open>std::filesystem\<close>. Both are made explicit here:
  \<^item> a \<^verbatim>\<open>std::string\<close> and a \<^verbatim>\<open>fs::path\<close> are byte strings (\<open>string\<close>);
  \<^item> the file system is a finite table from canonical path names to nodes; a path the
    program passes to \<^verbatim>\<open>std::filesystem\<close> is resolved against the table first, the way
    the operating system does it without symbolic links: empty components, \<^verbatim>\<open>.\<close>, \<^verbatim>\<open>..\<close>
    and a final slash all ask for a directory to stand at that point;
  \<^item> the log file written by \<^verbatim>\<open>Logger\<close> is the list of its lines;
  \<^item> whatever an external process does is a parameter (the record \<open>env\<close>): the
    model fixes which command line is run, in which state, and what the program does with
    the exit status, never what the tool itself computes;
  \<^item> a C++ exception is the outcome \<open>Threw\<close>, together with the state reached;
  \<^item> the progress indicator (\<^verbatim>\<open>Spinner\<close>) owns a \<^verbatim>\<open>std::thread\<close> and has no destructor
    of its own. \<^verbatim>\<open>cmd_fetch\<close>, \<^verbatim>\<open>cmd_extract\<close> and \<^verbatim>\<open>cmd_patch\<close> start it and call
    \<^verbatim>\<open>sp.stop()\<close> (which joins the thread) only in front of their last \<^verbatim>\<open>return\<close>.
    Leaving one of them between the two, by a \<^verbatim>\<open>return\<close> or by an exception, destroys a
    joinable \<^verbatim>\<open>std::thread\<close>: the C++ runtime calls \<^verbatim>\<open>std::terminate\<close> and the
    process is aborted. That end of a step is \<open>Terminated\<close> below; what the thread draws
    on the terminal is left out.
\<close>

subsection \<open>Strings\<close>

definition sq :: string where
  "sq = [CHR 0x27]"

definition quoted :: "string \<Rightarrow> string" where
  \<comment> \<open>\<^verbatim>\<open>"'" + s + "'"\<close>\<close>
  "quoted s = sq @ s @ sq"

definition is_trim_ws :: "char \<Rightarrow> bool" where
  \<comment> \<open>the set \<^verbatim>\<open>" \t\r\n"\<close> of \<^verbatim>\<open>find_first_not_of\<close> / \<^verbatim>\<open>find_last_not_of\<close>\<close>
  "is_trim_ws ch = (ch = CHR '' '' \<or> ch = CHR 0x09 \<or> ch = CHR 0x0D \<or> ch = CHR 0x0A)"

definition isspace :: "char \<Rightarrow> bool" where
  \<comment> \<open>\<^verbatim>\<open>::isspace\<close> in the C locale: space, \<^verbatim>\<open>\t \n \v \f \r\<close>\<close>
  "isspace ch = (ch = CHR '' '' \<or> ch = CHR 0x09 \<or> ch = CHR 0x0A \<or> ch = CHR 0x0B
                 \<or> ch = CHR 0x0C \<or> ch = CHR 0x0D)"

definition trim :: "string \<Rightarrow> string" where
  \<comment> \<open>\<^verbatim>\<open>t.erase(0, t.find_first_not_of(ws)); t.erase(t.find_last_not_of(ws)+1);\<close>\<close>
  "trim s = rev (dropWhile is_trim_ws (rev (dropWhile is_trim_ws s)))"

definition erase_spaces :: "string \<Rightarrow> string" where
  \<comment> \<open>\<^verbatim>\<open>s.erase(std::remove_if(s.begin(), s.end(), ::isspace), s.end())\<close>\<close>
  "erase_spaces s = filter (\<lambda>ch. \<not> isspace ch) s"

function getline_split :: "char \<Rightarrow> string \<Rightarrow> string list" where
  \<comment> \<open>the items read by \<^verbatim>\<open>while (std::getline(ss, item, d))\<close>: no item after a final delimiter\<close>
  "getline_split d s =
     (if s = [] then []
      else takeWhile (\<lambda>ch. ch \<noteq> d) s #
           (case dropWhile (\<lambda>ch. ch \<noteq> d) s of [] \<Rightarrow> [] | _ # rest \<Rightarrow> getline_split d rest))"
  by pat_completeness auto
termination
proof (relation "measure (\<lambda>(d, s). length s)")
  show "wf (measure (\<lambda>(d, s). length s))" by simp
next
  fix d :: char and s :: string and x rest
  assume "s \<noteq> []" and "dropWhile (\<lambda>ch. ch \<noteq> d) s = x # rest"
  then have "length (x # rest) \<le> length s"
    using length_dropWhile_le [of "\<lambda>ch. ch \<noteq> d" s] by simp
  then show "((d, rest), (d, s)) \<in> measure (\<lambda>(d, s). length s)" by simp
qed

declare getline_split.simps [simp del]

definition digit_char :: "nat \<Rightarrow> char" where
  "digit_char n = char_of (48 + n)"

function dec :: "nat \<Rightarrow> string" where
  \<comment> \<open>\<^verbatim>\<open>std::to_string\<close> of a non-negative number\<close>
  "dec n = (if n < 10 then [digit_char n] else dec (n div 10) @ [digit_char (n mod 10)])"
  by pat_completeness auto
termination
  by (relation "measure (\<lambda>n. n)") auto

declare dec.simps [simp del]

definition starts_with :: "string \<Rightarrow> string \<Rightarrow> bool" where
  \<comment> \<open>\<^verbatim>\<open>s.rfind(p, 0) == 0\<close>\<close>
  "starts_with s p = prefix p s"

definition contains :: "string \<Rightarrow> string \<Rightarrow> bool" where
  \<comment> \<open>\<^verbatim>\<open>s.find(p) != std::string::npos\<close>\<close>
  "contains s p = sublist p s"

definition ends_with :: "string \<Rightarrow> string \<Rightarrow> bool" where
  \<comment> \<open>\<^verbatim>\<open>s.size() >= n && s.substr(s.size() - n) == p\<close> with \<open>n\<close> the length of \<open>p\<close>\<close>
  "ends_with s p = suffix p s"

subsection \<open>Paths\<close>

type_synonym path = string

definition is_absolute :: "path \<Rightarrow> bool" where
  "is_absolute p = (p \<noteq> [] \<and> hd p = CHR ''/'')"

definition pjoin :: "path \<Rightarrow> path \<Rightarrow> path" where
  \<comment> \<open>\<^verbatim>\<open>fs::path::operator/\<close> on POSIX: an absolute right side replaces the left\<close>
  "pjoin p q =
     (if is_absolute q then q
      else if p = [] \<or> last p = CHR ''/'' then p @ q
      else p @ ''/'' @ q)"

definition filename :: "path \<Rightarrow> string" where
  "filename p = rev (takeWhile (\<lambda>ch. ch \<noteq> CHR ''/'') (rev p))"

definition parent_path :: "path \<Rightarrow> path" where
  "parent_path p =
     (let d = rev (dropWhile (\<lambda>ch. ch \<noteq> CHR ''/'') (rev p));
          t = rev (dropWhile (\<lambda>ch. ch = CHR ''/'') (rev d))
      in if t = [] \<and> d \<noteq> [] then ''/'' else t)"

definition extension :: "path \<Rightarrow> string" where
  \<comment> \<open>from the last period of the file name; a leading period does not count\<close>
  "extension p =
     (let f = filename p
      in if f = ''.'' \<or> f = ''..'' \<or> CHR ''.'' \<notin> set (tl f) then []
         else CHR ''.'' # rev (takeWhile (\<lambda>ch. ch \<noteq> CHR ''.'') (rev f)))"

definition replace_extension :: "path \<Rightarrow> string \<Rightarrow> path" where
  "replace_extension p ext =
     take (length p - length (extension p)) p
       @ (if ext \<noteq> [] \<and> hd ext \<noteq> CHR ''.'' then CHR ''.'' # ext else ext)"

definition relative_to :: "path \<Rightarrow> path \<Rightarrow> string" where
  \<comment> \<open>\<^verbatim>\<open>fs::relative(q, d).string()\<close> for an entry \<open>q\<close> that a directory iterator on \<open>d\<close>
      has produced (\<open>d\<close>, a separator unless \<open>d\<close> ends in one, and the relative part)\<close>
  "relative_to q d = drop (length (pjoin d [])) q"

definition components :: "path \<Rightarrow> string list" where
  \<comment> \<open>the pieces between the slashes, after the leading slash of an absolute path; a final
      slash leaves a last, empty piece\<close>
  "components p =
     (let cs = getline_split (CHR ''/'') (p @ ''/'') in if is_absolute p then tl cs else cs)"

fun join_slash :: "string list \<Rightarrow> string" where
  "join_slash [] = []"
| "join_slash [c] = c"
| "join_slash (c # d # cs) = c @ ''/'' @ join_slash (d # cs)"

definition spell :: "bool \<Rightarrow> string list \<Rightarrow> path" where
  \<comment> \<open>the canonical name of a list of directory names, absolute or relative to the working
      directory: \<^verbatim>\<open>/\<close> or the empty string for the empty list\<close>
  "spell ab cs = (if ab then CHR ''/'' # join_slash cs else join_slash cs)"

definition below :: "path \<Rightarrow> path" where
  "below k = (if k = [] \<or> last k = CHR ''/'' then k else k @ ''/'')"

definition inside :: "path \<Rightarrow> path \<Rightarrow> bool" where
  \<comment> \<open>the canonical name \<open>q\<close> lies below the directory with the canonical name \<open>k\<close>\<close>
  "inside k q =
     (q \<noteq> k \<and> q \<noteq> [] \<and> (if k = [] then \<not> is_absolute q else prefix (below k) q))"

subsection \<open>File system\<close>

datatype node = File string | Dir

type_synonym fsys = "(path \<times> node) list"

text \<open>
  The keys of the table are canonical names: no empty component, no \<^verbatim>\<open>.\<close>, no \<^verbatim>\<open>..\<close>,
  no final slash. The root directory and the working directory (the keys \<^verbatim>\<open>/\<close> and the
  empty string) are directories whether the table lists them or not.
\<close>

definition node_at :: "fsys \<Rightarrow> path \<Rightarrow> node option" where
  "node_at fs k = (if k = [] \<or> k = ''/'' then Some Dir else map_of fs k)"

fun walk :: "fsys \<Rightarrow> bool \<Rightarrow> string list \<Rightarrow> string list \<Rightarrow> path option" where
  \<comment> \<open>path resolution: \<open>acc\<close> holds the directory names passed so far, innermost first.
      An empty component, \<^verbatim>\<open>.\<close> and \<^verbatim>\<open>..\<close> are looked up in the directory reached, which
      must therefore be one. The parent of the root is the root; a relative path that
      climbs above the working directory leaves the table and names nothing in it.\<close>
  "walk fs ab acc [] = Some (spell ab (rev acc))"
| "walk fs ab acc (c # cs) =
     (if c = [] \<or> c = ''.'' \<or> c = ''..'' then
        (if node_at fs (spell ab (rev acc)) \<noteq> Some Dir then None
         else if c = ''..'' then (if acc = [] \<and> \<not> ab then None else walk fs ab (tl acc) cs)
         else walk fs ab acc cs)
      else walk fs ab (c # acc) cs)"

definition resolve :: "fsys \<Rightarrow> path \<Rightarrow> path option" where
  \<comment> \<open>the canonical name a path stands for; the empty path stands for nothing\<close>
  "resolve fs p = (if p = [] then None else walk fs (is_absolute p) [] (components p))"

definition fs_lookup :: "fsys \<Rightarrow> path \<Rightarrow> node option" where
  "fs_lookup fs p = (case resolve fs p of None \<Rightarrow> None | Some k \<Rightarrow> node_at fs k)"

definition fs_exists :: "fsys \<Rightarrow> path \<Rightarrow> bool" where
  "fs_exists fs p = (fs_lookup fs p \<noteq> None)"

definition fs_is_directory :: "fsys \<Rightarrow> path \<Rightarrow> bool" where
  "fs_is_directory fs p = (fs_lookup fs p = Some Dir)"

definition fs_is_regular_file :: "fsys \<Rightarrow> path \<Rightarrow> bool" where
  "fs_is_regular_file fs p = (case fs_lookup fs p of Some (File c) \<Rightarrow> True | _ \<Rightarrow> False)"

definition fs_has_children :: "fsys \<Rightarrow> path \<Rightarrow> bool" where
  \<comment> \<open>for a canonical name \<open>k\<close>\<close>
  "fs_has_children fs k = list_ex (\<lambda>(q, n). inside k q) fs"

definition fs_is_empty :: "fsys \<Rightarrow> path \<Rightarrow> bool" where
  \<comment> \<open>\<^verbatim>\<open>fs::is_empty\<close>; the program calls it only behind \<^verbatim>\<open>fs::exists(p) &&\<close>, so the
      exception on a missing path is never reached\<close>
  "fs_is_empty fs p =
     (case resolve fs p of
        None \<Rightarrow> False
      | Some k \<Rightarrow>
          (case node_at fs k of
             Some Dir \<Rightarrow> \<not> fs_has_children fs k
           | Some (File c) \<Rightarrow> c = []
           | None \<Rightarrow> False))"

definition fs_drop :: "fsys \<Rightarrow> path \<Rightarrow> fsys" where
  \<comment> \<open>the table without the canonical name \<open>k\<close>\<close>
  "fs_drop fs k = filter (\<lambda>(q, n). q \<noteq> k) fs"

definition fs_drop_below :: "fsys \<Rightarrow> path \<Rightarrow> fsys" where
  \<comment> \<open>the table without all that lies below the canonical name \<open>k\<close>\<close>
  "fs_drop_below fs k = filter (\<lambda>(q, n). \<not> inside k q) fs"

definition fs_remove :: "fsys \<Rightarrow> path \<Rightarrow> fsys" where
  \<comment> \<open>\<^verbatim>\<open>fs::remove(p, ec)\<close>: a file or an empty directory; any error is dropped with \<open>ec\<close>\<close>
  "fs_remove fs p =
     (case resolve fs p of
        None \<Rightarrow> fs
      | Some k \<Rightarrow>
          (case map_of fs k of
             None \<Rightarrow> fs
           | Some (File c) \<Rightarrow> fs_drop fs k
           | Some Dir \<Rightarrow> if fs_has_children fs k then fs else fs_drop fs k))"

fun mkdirs :: "fsys \<Rightarrow> bool \<Rightarrow> string list \<Rightarrow> string list \<Rightarrow> fsys option" where
  \<comment> \<open>every directory the path names on its way is created when missing, \<open>a\<close> before
      \<open>a/b\<close>; \<open>None\<close> when one of them is a regular file\<close>
  "mkdirs fs ab acc [] = Some fs"
| "mkdirs fs ab acc (c # cs) =
     (if c = [] \<or> c = ''.'' then mkdirs fs ab acc cs
      else if c = ''..'' then (if acc = [] \<and> \<not> ab then None else mkdirs fs ab (tl acc) cs)
      else (case map_of fs (spell ab (rev (c # acc))) of
              Some (File x) \<Rightarrow> None
            | Some Dir \<Rightarrow> mkdirs fs ab (c # acc) cs
            | None \<Rightarrow> mkdirs (fs @ [(spell ab (rev (c # acc)), Dir)]) ab (c # acc) cs))"

definition fs_create_directories :: "fsys \<Rightarrow> path \<Rightarrow> fsys option" where
  \<comment> \<open>\<open>None\<close>: \<^verbatim>\<open>filesystem_error\<close>, for the empty path or when a component of the path is
      a regular file\<close>
  "fs_create_directories fs p =
     (if p = [] then None else mkdirs fs (is_absolute p) [] (components p))"

definition fs_put :: "fsys \<Rightarrow> path \<Rightarrow> string \<Rightarrow> fsys" where
  \<comment> \<open>a regular file with the content \<open>c\<close> at the canonical name \<open>k\<close>\<close>
  "fs_put fs k c = (k, File c) # filter (\<lambda>(q, n). q \<noteq> k) fs"

definition fs_target :: "fsys \<Rightarrow> path \<Rightarrow> path option" where
  \<comment> \<open>the canonical name under which opening \<open>p\<close> for writing creates a file: the last
      component, a proper name, in the directory the components before it lead to\<close>
  "fs_target fs p =
     (let cs = components p
      in if p = [] \<or> cs = [] \<or> last cs = [] \<or> last cs = ''.'' \<or> last cs = ''..'' then None
         else (case walk fs (is_absolute p) [] (butlast cs) of
                 None \<Rightarrow> None
               | Some d \<Rightarrow> if node_at fs d = Some Dir then Some (below d @ last cs) else None))"

definition fs_write :: "fsys \<Rightarrow> path \<Rightarrow> string \<Rightarrow> fsys option" where
  \<comment> \<open>\<^verbatim>\<open>std::ofstream out(p)\<close> and what is written to it; \<open>None\<close> when the stream does not open\<close>
  "fs_write fs p c =
     (case fs_target fs p of
        None \<Rightarrow> None
      | Some k \<Rightarrow> if map_of fs k = Some Dir then None else Some (fs_put fs k c))"

definition fs_directory_list :: "fsys \<Rightarrow> path \<Rightarrow> path list" where
  \<comment> \<open>\<^verbatim>\<open>fs::directory_iterator(d)\<close>: each entry is \<open>d\<close> joined with a name; the order of the
      table stands for the unspecified order of the enumeration\<close>
  "fs_directory_list fs d =
     (case resolve fs d of
        None \<Rightarrow> []
      | Some k \<Rightarrow>
          map (\<lambda>(q, n). pjoin d (drop (length (below k)) q))
            (filter (\<lambda>(q, n). inside k q \<and> CHR ''/'' \<notin> set (drop (length (below k)) q)) fs))"

definition fs_recursive_list :: "fsys \<Rightarrow> path \<Rightarrow> path list" where
  \<comment> \<open>\<^verbatim>\<open>fs::recursive_directory_iterator(d)\<close> for a directory \<open>d\<close>; on anything else the
      constructor throws, which the callers below write out\<close>
  "fs_recursive_list fs d =
     (case resolve fs d of
        None \<Rightarrow> []
      | Some k \<Rightarrow> map (\<lambda>(q, n). pjoin d (drop (length (below k)) q)) (filter (\<lambda>(q, n). inside k q) fs))"

definition is_elf :: "fsys \<Rightarrow> path \<Rightarrow> bool" where
  "is_elf fs p =
     (case fs_lookup fs p of
        Some (File c) \<Rightarrow> take 4 (c @ replicate 4 (CHR 0x00)) = [CHR 0x7F, CHR ''E'', CHR ''L'', CHR ''F'']
      | _ \<Rightarrow> False)"

subsection \<open>Log, external processes, exceptions\<close>

record world =
  files :: fsys
  logv :: "string list"

datatype proc = NoPipe | NoStatus | Exited nat

record env =
  sh :: "string \<Rightarrow> fsys \<Rightarrow> proc \<times> fsys"
  has_tool :: "string \<Rightarrow> bool"
  sha256sum_line :: "fsys \<Rightarrow> path \<Rightarrow> string option"
  ldd_lines :: "fsys \<Rightarrow> path \<Rightarrow> string list"
  str_hash :: "string \<Rightarrow> nat"
  rm_fault :: "fsys \<Rightarrow> path \<Rightarrow> fsys option"

text \<open>
  \<open>sh e cmd fs\<close> is one \<^verbatim>\<open>popen(cmd)\<close> \<^verbatim>\<open>pclose\<close> round: \<open>NoPipe\<close> when \<^verbatim>\<open>popen\<close>
  fails, \<open>NoStatus\<close> when \<^verbatim>\<open>pclose\<close> returns -1, otherwise the exit status
  (\<^verbatim>\<open>WEXITSTATUS\<close>) and the file system the process leaves. \<open>has_tool e t\<close> is
  \<^verbatim>\<open>system("command -v t >/dev/null 2>&1") == 0\<close>. \<open>sha256sum_line e fs p\<close> is the first
  line read from \<^verbatim>\<open>sha256sum 'p' | awk '{print $1}'\<close> (\<open>None\<close>: no pipe or no line),
  \<open>ldd_lines\<close> the lines read from the \<^verbatim>\<open>ldd\<close> pipeline, \<open>str_hash\<close> is
  \<^verbatim>\<open>std::hash<std::string>\<close>. \<open>rm_fault e fs p\<close> is what the operating system refuses to
  \<^verbatim>\<open>fs::remove_all(p)\<close>: \<open>Some fs'\<close> when an entry of the tree may not be deleted (a
  directory without write permission, say), with \<open>fs'\<close> the file system at that moment,
  part of the tree already gone; \<open>None\<close> when nothing stands in the way.
\<close>

datatype 'a outcome = Returned 'a | Threw string

datatype 'a ending = Normal "'a outcome" | Terminated

text \<open>
  \<open>Normal\<close>: the step came back to its caller, with a value or with an exception.
  \<open>Terminated\<close>: \<^verbatim>\<open>std::terminate\<close> was called inside the step; the process has been
  aborted and nothing came back.
\<close>

definition log_write :: "string \<Rightarrow> string \<Rightarrow> world \<Rightarrow> world" where
  "log_write level msg w = w\<lparr>logv := logv w @ [level @ '': '' @ msg]\<rparr>"

definition log_info :: "string \<Rightarrow> world \<Rightarrow> world" where
  "log_info = log_write ''[INFO]''"

definition log_ok :: "string \<Rightarrow> world \<Rightarrow> world" where
  "log_ok = log_write ''[ OK ]''"

definition log_warn :: "string \<Rightarrow> world \<Rightarrow> world" where
  "log_warn = log_write ''[WARN]''"

definition log_err :: "string \<Rightarrow> world \<Rightarrow> world" where
  "log_err = log_write ''[ERR ]''"

definition exec_cmd :: "env \<Rightarrow> string \<Rightarrow> world \<Rightarrow> nat \<times> world" where
  "exec_cmd e cmd w =
     (let w0 = log_info (''$ '' @ cmd) w
      in case sh e (cmd @ '' 2>&1'') (files w0) of
           (NoPipe, fs) \<Rightarrow> (127, log_err (''Falha ao executar: '' @ cmd) w0)
         | (NoStatus, fs) \<Rightarrow> (127, w0\<lparr>files := fs\<rparr>)
         | (Exited code, fs) \<Rightarrow>
             (code, (if code = 0 then log_ok ''rc=0'' else log_err (''rc='' @ dec code))
                      (w0\<lparr>files := fs\<rparr>)))"

definition exec_cmd_strict :: "env \<Rightarrow> string \<Rightarrow> string \<Rightarrow> world \<Rightarrow> unit outcome \<times> world" where
  "exec_cmd_strict e cmd ctx w =
     (case exec_cmd e cmd w of
        (rc, w') \<Rightarrow>
          if rc \<noteq> 0
          then (Threw (''Falha em: '' @ (if ctx = [] then cmd else ctx) @ '' (rc='' @ dec rc @ '')''), w')
          else (Returned (), w'))"

definition fs_error :: string where
  "fs_error = ''filesystem error''"

definition fs_remove_all :: "env \<Rightarrow> path \<Rightarrow> world \<Rightarrow> unit outcome \<times> world" where
  \<comment> \<open>\<^verbatim>\<open>fs::remove_all(p)\<close>, the overload that throws \<^verbatim>\<open>filesystem_error\<close>. A path that
      names nothing is no error. The root and the working directory cannot be removed:
      what they hold is deleted, then the call fails on the directory itself.\<close>
  "fs_remove_all e p w =
     (case rm_fault e (files w) p of
        Some fs' \<Rightarrow> (Threw fs_error, w\<lparr>files := fs'\<rparr>)
      | None \<Rightarrow>
          (case resolve (files w) p of
             None \<Rightarrow> (Returned (), w)
           | Some k \<Rightarrow>
               if k = [] \<or> k = ''/'' then (Threw fs_error, w\<lparr>files := fs_drop_below (files w) k\<rparr>)
               else (Returned (), w\<lparr>files := fs_drop (fs_drop_below (files w) k) k\<rparr>)))"

subsection \<open>Configuration, recipe, derived paths\<close>

record Config =
  base :: path
  recipes :: path
  sources :: path
  work :: path
  destroot :: path
  logs :: path
  repo :: path
  snapshots :: path

record Recipe =
  name :: string
  version :: string
  url :: string
  sha256 :: string
  vcs :: string
  patches :: string
  postremove :: string
  strip :: bool
  submodules :: bool
  prebuild :: string
  configure :: string
  prepare :: string
  build :: string
  install :: string
  postinstall :: string

definition split_list :: "string \<Rightarrow> string list" where
  "split_list s = filter (\<lambda>t. t \<noteq> []) (map trim (getline_split (CHR '','') s))"

definition recipe_dir :: "Config \<Rightarrow> string \<Rightarrow> path" where
  "recipe_dir c n = pjoin (recipes c) n"

definition after_last_slash :: "string \<Rightarrow> string" where
  \<comment> \<open>\<^verbatim>\<open>u.substr(u.find_last_of('/') + 1)\<close>\<close>
  "after_last_slash u = rev (takeWhile (\<lambda>ch. ch \<noteq> CHR ''/'') (rev u))"

definition source_paths :: "Config \<Rightarrow> Recipe \<Rightarrow> path list" where
  "source_paths c r =
     (let urls = split_list (url r)
      in if urls = []
         then (if vcs r \<noteq> [] then [] else [pjoin (sources c) (name r @ ''-'' @ version r @ ''.tar'')])
         else map (\<lambda>u. pjoin (sources c)
                         (if CHR ''/'' \<notin> set u then name r @ ''-'' @ version r @ ''.tar.gz''
                          else after_last_slash u)) urls)"

definition work_dir :: "Config \<Rightarrow> Recipe \<Rightarrow> path" where
  "work_dir c r = pjoin (work c) (name r @ ''-'' @ version r)"

definition destdir_pkg :: "Config \<Rightarrow> Recipe \<Rightarrow> path" where
  "destdir_pkg c r = pjoin (destroot c) (name r @ ''-'' @ version r)"

definition install_manifest :: "Config \<Rightarrow> Recipe \<Rightarrow> path" where
  "install_manifest c r = pjoin (logs c) (name r @ ''-'' @ version r @ ''.manifest'')"

definition snapshot_tar :: "Config \<Rightarrow> Recipe \<Rightarrow> path" where
  "snapshot_tar c r = pjoin (snapshots c) (name r @ ''-'' @ version r @ ''.tar.zst'')"

subsection \<open>Patches\<close>

definition git_am_cmd :: "path \<Rightarrow> path \<Rightarrow> string" where
  "git_am_cmd patch wd = ''bash -lc '' @ sq @ ''cd '' @ wd @ '' && git am --3way --keep-cr '' @ patch @ sq"

definition patch_cmd :: "string \<Rightarrow> path \<Rightarrow> path \<Rightarrow> string" where
  "patch_cmd lvl patch wd = ''patch -d '' @ quoted wd @ '' -p'' @ lvl @ '' < '' @ quoted patch"

definition apply_patch_file :: "env \<Rightarrow> path \<Rightarrow> path \<Rightarrow> world \<Rightarrow> nat \<times> world" where
  "apply_patch_file e patch wd w =
     (case exec_cmd e (git_am_cmd patch wd) w of
        (rc, w1) \<Rightarrow>
          if rc = 0 then (0, w1)
          else (case exec_cmd e (patch_cmd ''1'' patch wd) w1 of
                  (rc, w2) \<Rightarrow>
                    if rc \<noteq> 0 then exec_cmd e (patch_cmd ''0'' patch wd) w2
                    else (rc, w2)))"

definition v0_apply_patch_file :: "env \<Rightarrow> path \<Rightarrow> path \<Rightarrow> world \<Rightarrow> nat \<times> world" where
  \<comment> \<open>\<^verbatim>\<open>apply_patch_file\<close> of the predecessor \<^verbatim>\<open>src/cbuild.cpp\<close>: no mailbox attempt yet\<close>
  "v0_apply_patch_file e patch wd w =
     (case exec_cmd e (patch_cmd ''1'' patch wd) w of
        (rc, w1) \<Rightarrow>
          if rc \<noteq> 0 then exec_cmd e (patch_cmd ''0'' patch wd) w1
          else (rc, w1))"

definition commands_run :: "world \<Rightarrow> world \<Rightarrow> string list" where
  \<comment> \<open>the command lines \<^verbatim>\<open>exec_cmd\<close> has logged (\<^verbatim>\<open>log.info("$ " + cmd)\<close>) between two states\<close>
  "commands_run w w' =
     map (drop 10) (filter (prefix ''[INFO]: $ '') (drop (length (logv w)) (logv w')))"

definition is_url :: "string \<Rightarrow> bool" where
  "is_url s = (starts_with s ''http://'' \<or> starts_with s ''https://'')"

definition is_git :: "string \<Rightarrow> bool" where
  "is_git s = starts_with s ''git:''"

definition ensure_git_repo :: "env \<Rightarrow> path \<Rightarrow> world \<Rightarrow> unit outcome \<times> world" where
  "ensure_git_repo e wd w =
     (if \<not> fs_exists (files w) (pjoin wd ''.git'')
      then (case exec_cmd_strict e (''git -C '' @ quoted wd @ '' init'') ''git init'' w of
              (Threw m, w1) \<Rightarrow> (Threw m, w1)
            | (Returned u, w1) \<Rightarrow>
                (let w2 = snd (exec_cmd e (''git -C '' @ quoted wd @ '' add -A'') w1);
                     w3 = snd (exec_cmd e (''git -C '' @ quoted wd
                            @ '' -c user.email=cbuild@local -c user.name=cbuild commit -m base || true'') w2)
                 in (Returned (), w3)))
      else (Returned (), w))"

fun apply_files :: "env \<Rightarrow> path \<Rightarrow> path list \<Rightarrow> world \<Rightarrow> nat \<times> world" where
  \<comment> \<open>\<^verbatim>\<open>for (auto &p: files){ int rc = apply_patch_file(p, wd, log); if (rc) return rc; } return 0;\<close>\<close>
  "apply_files e wd [] w = (0, w)"
| "apply_files e wd (p # ps) w =
     (case apply_patch_file e p wd w of
        (rc, w1) \<Rightarrow> if rc \<noteq> 0 then (rc, w1) else apply_files e wd ps w1)"

definition patch_files_in :: "fsys \<Rightarrow> path \<Rightarrow> path list" where
  "patch_files_in fs dir =
     sort (filter (\<lambda>p. fs_is_regular_file fs p
                        \<and> (extension p = ''.patch'' \<or> extension p = ''.diff'' \<or> extension p = ''.mbox''))
             (fs_directory_list fs dir))"

definition apply_patches_from_dir :: "env \<Rightarrow> path \<Rightarrow> path \<Rightarrow> world \<Rightarrow> nat \<times> world" where
  "apply_patches_from_dir e dir wd w = apply_files e wd (patch_files_in (files w) dir) w"

definition tmpref :: string where
  "tmpref = ''refs/tmp/cbuild''"

definition cherry_pick_ref :: "env \<Rightarrow> string \<Rightarrow> string \<Rightarrow> path \<Rightarrow> world \<Rightarrow> nat outcome \<times> world" where
  "cherry_pick_ref e repo_url refspec wd w =
     (case exec_cmd_strict e
             (''git -C '' @ quoted wd @ '' fetch '' @ quoted repo_url @ '' '' @ quoted (refspec @ '':'' @ tmpref))
             (''git fetch '' @ refspec) w of
        (Threw m, w1) \<Rightarrow> (Threw m, w1)
      | (Returned u, w1) \<Rightarrow>
          (case exec_cmd e (''bash -lc '' @ sq @ ''cd '' @ wd @ '' && git cherry-pick -x '' @ tmpref @ sq) w1 of
             (rc, w2) \<Rightarrow>
               (Returned rc, snd (exec_cmd e (''git -C '' @ quoted wd @ '' update-ref -d '' @ tmpref) w2))))"

definition curl_cmd :: "path \<Rightarrow> string \<Rightarrow> string" where
  "curl_cmd dst u = ''curl -L --fail -o '' @ quoted dst @ '' '' @ quoted u"

definition patch_entry :: "env \<Rightarrow> Config \<Rightarrow> Recipe \<Rightarrow> path \<Rightarrow> string \<Rightarrow> world \<Rightarrow> nat outcome \<times> world" where
  \<comment> \<open>one trimmed, non-empty entry of \<^verbatim>\<open>patches\<close>: the body of the loop of \<^verbatim>\<open>cmd_patch\<close>;
      a status other than 0 is the \<^verbatim>\<open>return\<close> that leaves the loop\<close>
  "patch_entry e c r wd t w =
     (if is_git t then
        (let rest = drop 4 t
         in if CHR ''@'' \<notin> set rest
            then (Returned 6, log_err (''patch git sem @ref: '' @ t) w)
            else cherry_pick_ref e (takeWhile (\<lambda>ch. ch \<noteq> CHR ''@'') rest)
                   (drop 1 (dropWhile (\<lambda>ch. ch \<noteq> CHR ''@'') rest)) wd w)
      else if is_url t then
        (let pf = pjoin (sources c) (name r @ ''-'' @ dec (str_hash e t) @ ''.patch'')
         in case exec_cmd e (curl_cmd pf t) w of
              (rc, w1) \<Rightarrow>
                if rc \<noteq> 0 then (Returned rc, w1)
                else (case apply_patch_file e pf wd w1 of (rc, w2) \<Rightarrow> (Returned rc, w2)))
      else
        (let p = (if \<not> is_absolute t then pjoin (recipe_dir c (name r)) t else t)
         in if \<not> fs_exists (files w) p
            then (Returned 6, log_err (''Patch n'' @ [CHR 0xC3, CHR 0xA3] @ ''o encontrado: '' @ p) w)
            else if fs_is_directory (files w) p
            then (case apply_patches_from_dir e p wd w of (rc, w1) \<Rightarrow> (Returned rc, w1))
            else (case apply_patch_file e p wd w of (rc, w1) \<Rightarrow> (Returned rc, w1))))"

fun patch_loop :: "env \<Rightarrow> Config \<Rightarrow> Recipe \<Rightarrow> path \<Rightarrow> string list \<Rightarrow> world \<Rightarrow> nat outcome \<times> world" where
  \<comment> \<open>the \<^verbatim>\<open>while (std::getline(ss, item, ','))\<close> loop and the \<^verbatim>\<open>return 0\<close> after it\<close>
  "patch_loop e c r wd [] w = (Returned 0, w)"
| "patch_loop e c r wd (item # items) w =
     (if trim item = [] then patch_loop e c r wd items w
      else (case patch_entry e c r wd (trim item) w of
              (Returned rc, w1) \<Rightarrow>
                if rc \<noteq> 0 then (Returned rc, w1) else patch_loop e c r wd items w1
            | (Threw m, w1) \<Rightarrow> (Threw m, w1)))"

definition cmd_patch :: "env \<Rightarrow> Config \<Rightarrow> Recipe \<Rightarrow> world \<Rightarrow> nat ending \<times> world" where
  \<comment> \<open>The \<^verbatim>\<open>Spinner\<close> is started after \<^verbatim>\<open>ensure_git_repo\<close> and stopped after the loop
      only: every \<^verbatim>\<open>return\<close> inside the loop, and an exception that leaves it, ends in
      \<^verbatim>\<open>std::terminate\<close>.\<close>
  "cmd_patch e c r w =
     (if patches r = [] then (Normal (Returned 0), log_info ''Sem patches'' w)
      else
        (let wd = work_dir c r
         in if \<not> fs_exists (files w) wd
            then (Normal (Returned 5), log_err ''work inexistente, rode extract primeiro'' w)
            else (case ensure_git_repo e wd w of
                    (Threw m, w0) \<Rightarrow> (Normal (Threw m), w0)
                  | (Returned u, w0) \<Rightarrow>
                      (case patch_loop e c r wd (getline_split (CHR '','') (patches r)) w0 of
                         (Returned rc, w1) \<Rightarrow>
                           if rc \<noteq> 0 then (Terminated, w1) else (Normal (Returned 0), w1)
                       | (Threw m, w1) \<Rightarrow> (Terminated, w1)))))"

subsection \<open>Fetch\<close>

definition required_tools :: "string list" where
  "required_tools =
     [''curl'', ''git'', ''tar'', ''patch'', ''sha256sum'', ''ldd'', ''strip'', ''unzip'', ''xz'', ''gzip'']"

fun check_tools_from :: "env \<Rightarrow> bool \<Rightarrow> string list \<Rightarrow> world \<Rightarrow> unit outcome \<times> world" where
  "check_tools_from e strict [] w = (Returned (), w)"
| "check_tools_from e strict (t # ts) w =
     (if \<not> has_tool e t
      then (if strict then (Threw (''Ferramenta ausente: '' @ t), w)
            else check_tools_from e strict ts (log_warn (''Ferramenta ausente: '' @ t) w))
      else check_tools_from e strict ts w)"

definition check_tools :: "env \<Rightarrow> bool \<Rightarrow> world \<Rightarrow> unit outcome \<times> world" where
  "check_tools e strict w = check_tools_from e strict required_tools w"

definition sha256_file :: "env \<Rightarrow> fsys \<Rightarrow> path \<Rightarrow> string" where
  \<comment> \<open>\<^verbatim>\<open>fgets(buf, 128, f)\<close> keeps at most 127 bytes of the line\<close>
  "sha256_file e fs p =
     erase_spaces (case sha256sum_line e fs p of None \<Rightarrow> [] | Some l \<Rightarrow> take 127 l)"

definition fetch_download :: "env \<Rightarrow> path \<Rightarrow> string \<Rightarrow> world \<Rightarrow> nat \<times> world" where
  \<comment> \<open>\<^verbatim>\<open>if (!fs::exists(dst)) rc = exec_cmd("curl ..."); else log.info(...)\<close>; \<open>rc\<close> is 0
      whenever the loop is still running\<close>
  "fetch_download e dst u w =
     (if \<not> fs_exists (files w) dst then exec_cmd e (curl_cmd dst u) w
      else (0, log_info (''Fonte j'' @ [CHR 0xC3, CHR 0xA1] @ '' presente: '' @ dst) w))"

definition fetch_verify :: "env \<Rightarrow> path \<Rightarrow> string list \<Rightarrow> nat \<Rightarrow> world \<Rightarrow> nat \<times> world" where
  \<comment> \<open>\<^verbatim>\<open>if (i < sums.size() && !sums[i].empty()) { ... return 3; ... }\<close>\<close>
  "fetch_verify e dst sums i w =
     (if i < length sums \<and> sums ! i \<noteq> [] then
        (let got = sha256_file e (files w) dst
         in if got \<noteq> sums ! i
            then (3, log_err (''sha256 diferente: '' @ got @ '' != '' @ sums ! i) w)
            else (0, log_ok (''sha256 ok: '' @ filename dst) w))
      else (0, w))"

definition fetch_index ::
  "env \<Rightarrow> Config \<Rightarrow> Recipe \<Rightarrow> string list \<Rightarrow> string list \<Rightarrow> nat \<Rightarrow> world \<Rightarrow> nat outcome \<times> world" where
  \<comment> \<open>the body of the loop over the source indexes in \<^verbatim>\<open>cmd_fetch\<close>; a status other than 0
      is the \<^verbatim>\<open>return\<close> that leaves the loop, \<open>Threw\<close> the \<^verbatim>\<open>std::out_of_range\<close> of \<^verbatim>\<open>.at(i)\<close>\<close>
  "fetch_index e c r urls sums i w =
     (if length (source_paths c r) \<le> i then (Threw ''vector::at'', w)
      else
        (let dst = source_paths c r ! i
         in case fetch_download e dst (urls ! i) w of
              (rc, w1) \<Rightarrow>
                if rc \<noteq> 0 then (Returned rc, w1)
                else (case fetch_verify e dst sums i w1 of (rc, w2) \<Rightarrow> (Returned rc, w2))))"

fun fetch_loop ::
  "env \<Rightarrow> Config \<Rightarrow> Recipe \<Rightarrow> string list \<Rightarrow> string list \<Rightarrow> nat list \<Rightarrow> world \<Rightarrow> nat outcome \<times> world" where
  "fetch_loop e c r urls sums [] w = (Returned 0, w)"
| "fetch_loop e c r urls sums (i # is) w =
     (case fetch_index e c r urls sums i w of
        (Returned rc, w1) \<Rightarrow>
          if rc \<noteq> 0 then (Returned rc, w1) else fetch_loop e c r urls sums is w1
      | (Threw m, w1) \<Rightarrow> (Threw m, w1))"

definition fetch_vcs :: "env \<Rightarrow> Config \<Rightarrow> Recipe \<Rightarrow> world \<Rightarrow> nat \<times> world" where
  \<comment> \<open>the optional live git source of \<^verbatim>\<open>cmd_fetch\<close>\<close>
  "fetch_vcs e c r w =
     (if vcs r \<noteq> [] \<and> starts_with (vcs r) ''git:'' then
        (let u = drop 4 (vcs r); d = pjoin (sources c) (name r @ ''-git'')
         in if \<not> fs_exists (files w) d
            then exec_cmd e (''git clone '' @ quoted u @ '' '' @ quoted d) w
            else (case exec_cmd e (''git -C '' @ quoted d @ '' fetch --all --tags'') w of
                    (rc, w1) \<Rightarrow>
                      (rc, if submodules r
                           then snd (exec_cmd e (''git -C '' @ quoted d
                                       @ '' submodule update --init --recursive'') w1)
                           else w1)))
      else (0, w))"

definition cmd_fetch :: "env \<Rightarrow> Config \<Rightarrow> Recipe \<Rightarrow> world \<Rightarrow> nat ending \<times> world" where
  \<comment> \<open>The \<^verbatim>\<open>Spinner\<close> is started after \<^verbatim>\<open>fs::create_directories(c.sources)\<close> and stopped
      in front of the last \<^verbatim>\<open>return rc\<close> only: the \<^verbatim>\<open>return\<close> statements of the loop and
      of the git part, and the exception of \<^verbatim>\<open>.at(i)\<close>, end in \<^verbatim>\<open>std::terminate\<close>.\<close>
  "cmd_fetch e c r w =
     (case check_tools e True w of
        (Threw m, w0) \<Rightarrow> (Normal (Threw m), w0)
      | (Returned u, w0) \<Rightarrow>
          (case fs_create_directories (files w0) (sources c) of
             None \<Rightarrow> (Normal (Threw fs_error), w0)
           | Some fs1 \<Rightarrow>
               (let urls = split_list (url r); sums = split_list (sha256 r)
                in case fetch_loop e c r urls sums [0..<length urls] (w0\<lparr>files := fs1\<rparr>) of
                     (Threw m, w1) \<Rightarrow> (Terminated, w1)
                   | (Returned rc, w1) \<Rightarrow>
                       if rc \<noteq> 0 then (Terminated, w1)
                       else (case fetch_vcs e c r w1 of
                               (rc, w2) \<Rightarrow>
                                 if rc \<noteq> 0 then (Terminated, w2) else (Normal (Returned rc), w2)))))"

subsection \<open>Extract\<close>

definition tar_strip_cmd :: "string \<Rightarrow> path \<Rightarrow> path \<Rightarrow> string" where
  "tar_strip_cmd flags s dst = ''tar '' @ flags @ '' '' @ quoted s @ '' -C '' @ quoted dst @ '' --strip-components=1''"

definition unpack_via_cmd :: "string \<Rightarrow> string \<Rightarrow> path \<Rightarrow> path \<Rightarrow> string" where
  \<comment> \<open>the bare \<^verbatim>\<open>.xz\<close> / \<^verbatim>\<open>.gz\<close> branches of \<^verbatim>\<open>extract_one\<close>\<close>
  "unpack_via_cmd tool tmp s dst =
     ''mkdir -p '' @ quoted (dst @ tmp) @ '' && '' @ tool @ '' -dc '' @ quoted s @ '' > ''
       @ quoted (dst @ tmp @ ''/arch'') @ '' && tar -xf '' @ quoted (dst @ tmp @ ''/arch'')
       @ '' -C '' @ quoted dst @ '' --strip-components=1 && rm -rf '' @ quoted (dst @ tmp)"

definition extract_cmd :: "path \<Rightarrow> path \<Rightarrow> string" where
  \<comment> \<open>the command \<^verbatim>\<open>extract_one\<close> chooses, in the order of its tests\<close>
  "extract_cmd s dst =
     (if ends_with s ''.zip'' then ''unzip -qq '' @ quoted s @ '' -d '' @ quoted dst
      else if contains s ''.tar.gz'' \<or> contains s ''.tgz'' then tar_strip_cmd ''-xzf'' s dst
      else if contains s ''.tar.xz'' then tar_strip_cmd ''-xJf'' s dst
      else if contains s ''.tar.bz2'' then tar_strip_cmd ''-xjf'' s dst
      else if ends_with s ''.xz'' then unpack_via_cmd ''xz'' ''/.tmpx'' s dst
      else if ends_with s ''.gz'' then unpack_via_cmd ''gzip'' ''/.tmpg'' s dst
      else tar_strip_cmd ''-xf'' s dst)"

definition extract_one :: "env \<Rightarrow> path \<Rightarrow> path \<Rightarrow> world \<Rightarrow> nat \<times> world" where
  "extract_one e src dst w = exec_cmd e (extract_cmd src dst) w"

fun extract_loop :: "env \<Rightarrow> path \<Rightarrow> path list \<Rightarrow> world \<Rightarrow> nat \<times> world" where
  "extract_loop e dst [] w = (0, w)"
| "extract_loop e dst (src # srcs) w =
     (if \<not> fs_exists (files w) src
      then (4, log_err (''Fonte n'' @ [CHR 0xC3, CHR 0xA3] @ ''o encontrada: '' @ src) w)
      else (case extract_one e src dst w of
              (rc, w1) \<Rightarrow> if rc \<noteq> 0 then (rc, w1) else extract_loop e dst srcs w1))"

definition cmd_extract :: "env \<Rightarrow> Config \<Rightarrow> Recipe \<Rightarrow> world \<Rightarrow> nat ending \<times> world" where
  \<comment> \<open>The \<^verbatim>\<open>Spinner\<close> is started once the work directory is prepared and stopped in front
      of the last \<^verbatim>\<open>return 0\<close> only: every other \<^verbatim>\<open>return\<close> ends in \<^verbatim>\<open>std::terminate\<close>.\<close>
  "cmd_extract e c r w =
     (case fs_create_directories (files w) (work c) of
        None \<Rightarrow> (Normal (Threw fs_error), w)
      | Some fs1 \<Rightarrow>
          (let dst = work_dir c r; w1 = w\<lparr>files := fs1\<rparr>
           in case (if fs_exists fs1 dst
                    then fs_remove_all e dst (log_warn (''Removendo work antigo: '' @ dst) w1)
                    else (Returned (), w1)) of
                (Threw m, w2) \<Rightarrow> (Normal (Threw m), w2)
              | (Returned u, w2) \<Rightarrow>
                  (case fs_create_directories (files w2) dst of
                     None \<Rightarrow> (Normal (Threw fs_error), w2)
                   | Some fs3 \<Rightarrow>
                       (let w3 = w2\<lparr>files := fs3\<rparr>; srcs = source_paths c r
                        in if srcs \<noteq> [] then
                             (case extract_loop e dst srcs w3 of
                                (rc, w4) \<Rightarrow>
                                  if rc \<noteq> 0 then (Terminated, w4) else (Normal (Returned 0), w4))
                           else if vcs r \<noteq> [] \<and> starts_with (vcs r) ''git:'' then
                             (case exec_cmd e (''cp -a '' @ quoted (pjoin (sources c) (name r @ ''-git''))
                                                @ ''/. '' @ sq @ dst @ ''/'' @ sq) w3 of
                                (rc, w4) \<Rightarrow>
                                  if rc \<noteq> 0 then (Terminated, w4)
                                  else (Normal (Returned 0),
                                        if submodules r
                                        then snd (exec_cmd e (''git -C '' @ quoted dst
                                                    @ '' submodule update --init --recursive'') w4)
                                        else w4))
                           else (Terminated,
                                 log_err ''Nada para extrair (sem arquivo fonte nem VCS)'' w3)))))"

subsection \<open>Build stages\<close>

definition step_cmd :: "path \<Rightarrow> string \<Rightarrow> string" where
  "step_cmd wd cmd = ''bash -lc '' @ sq @ ''cd '' @ wd @ '' && set -e; '' @ cmd @ sq"

definition run_step :: "env \<Rightarrow> string \<Rightarrow> path \<Rightarrow> string \<Rightarrow> world \<Rightarrow> nat \<times> world" where
  "run_step e label wd cmd w =
     (if cmd = [] then (0, log_info (label @ '': (vazio)'') w)
      else exec_cmd e (step_cmd wd cmd) w)"

definition cmd_build_all :: "env \<Rightarrow> Config \<Rightarrow> Recipe \<Rightarrow> world \<Rightarrow> nat \<times> world" where
  "cmd_build_all e c r w =
     (let wd = work_dir c r
      in if \<not> fs_exists (files w) wd then (7, log_err ''work inexistente, rode extract/patch'' w)
         else (case run_step e ''prebuild'' wd (prebuild r) w of
                 (rc, w1) \<Rightarrow> if rc \<noteq> 0 then (rc, w1) else
              (case run_step e ''prepare'' wd (prepare r) w1 of
                 (rc, w2) \<Rightarrow> if rc \<noteq> 0 then (rc, w2) else
              (case run_step e ''configure'' wd (configure r) w2 of
                 (rc, w3) \<Rightarrow> if rc \<noteq> 0 then (rc, w3) else
              (case run_step e ''build'' wd (build r) w3 of
                 (rc, w4) \<Rightarrow> if rc \<noteq> 0 then (rc, w4) else (0, w4))))))"

subsection \<open>Snapshots, install, remove\<close>

definition snapshot_zstd_cmd :: "path \<Rightarrow> path \<Rightarrow> string" where
  "snapshot_zstd_cmd dest snap =
     ''bash -lc '' @ sq @ ''cd '' @ dest @ '' && tar -cf - . '' @ '' | zstd -cq > '' @ quoted snap @ sq"

definition snapshot_gzip_cmd :: "path \<Rightarrow> path \<Rightarrow> string" where
  "snapshot_gzip_cmd dest snap =
     ''bash -lc '' @ sq @ ''cd '' @ dest @ '' && tar -czf '' @ replace_extension snap ''.tar.gz'' @ '' .'' @ sq"

definition make_snapshot :: "env \<Rightarrow> path \<Rightarrow> path \<Rightarrow> world \<Rightarrow> unit outcome \<times> world" where
  "make_snapshot e dest snap w =
     (case fs_create_directories (files w) (parent_path snap) of
        None \<Rightarrow> (Threw fs_error, w)
      | Some fs1 \<Rightarrow>
          (let w1 = w\<lparr>files := fs1\<rparr>
           in if fs_exists fs1 dest \<and> \<not> fs_is_empty fs1 dest then
                (if has_tool e ''zstd''
                 then exec_cmd_strict e (snapshot_zstd_cmd dest snap) ''snapshot zstd'' w1
                 else exec_cmd_strict e (snapshot_gzip_cmd dest snap) ''snapshot gzip'' w1)
              else (Returned (), w1)))"

definition restore_zstd_cmd :: "path \<Rightarrow> path \<Rightarrow> string" where
  "restore_zstd_cmd dest snap =
     ''bash -lc '' @ sq @ ''cd '' @ dest @ '' && zstd -dc < '' @ snap @ '' | tar -xf -'' @ sq"

definition restore_gzip_cmd :: "path \<Rightarrow> path \<Rightarrow> string" where
  "restore_gzip_cmd dest snap =
     ''bash -lc '' @ sq @ ''cd '' @ dest @ '' && tar -xzf '' @ replace_extension snap ''.tar.gz'' @ sq"

definition snapshot_alt :: "path \<Rightarrow> path" where
  \<comment> \<open>\<^verbatim>\<open>snap.parent_path()/(name.substr(0, name.size()-4)+".tar.gz")\<close> with \<open>name\<close> the file
      name of \<open>snap\<close>; the unsigned \<^verbatim>\<open>size()-4\<close> wraps on a shorter name and keeps all of it\<close>
  "snapshot_alt snap =
     (let f = filename snap
      in pjoin (parent_path snap) ((if length f < 4 then f else take (length f - 4) f) @ ''.tar.gz''))"

definition restore_snapshot :: "env \<Rightarrow> path \<Rightarrow> path \<Rightarrow> world \<Rightarrow> unit outcome \<times> world" where
  "restore_snapshot e dest snap w =
     (if \<not> fs_exists (files w) snap \<and> \<not> fs_exists (files w) (snapshot_alt snap) then (Returned (), w)
      else
        (case fs_remove_all e dest w of
           (Threw m, w0) \<Rightarrow> (Threw m, w0)
         | (Returned u, w0) \<Rightarrow>
             (case fs_create_directories (files w0) dest of
                None \<Rightarrow> (Threw fs_error, w0)
              | Some fs1 \<Rightarrow>
                  (let w1 = w0\<lparr>files := fs1\<rparr>
                   in if has_tool e ''zstd'' \<and> fs_exists fs1 snap
                      then exec_cmd_strict e (restore_zstd_cmd dest snap) ''restore zstd'' w1
                      else if fs_exists fs1 (replace_extension snap ''.tar.gz'')
                      then exec_cmd_strict e (restore_gzip_cmd dest snap) ''restore gzip'' w1
                      else (Returned (), w1)))))"

definition ensure_destdir_in_install :: "string \<Rightarrow> string" where
  "ensure_destdir_in_install cmd =
     (if contains cmd ''DESTDIR='' then cmd else cmd @ '' DESTDIR=${DESTDIR}'')"

definition fakeroot_if_available :: "env \<Rightarrow> string" where
  "fakeroot_if_available e = (if has_tool e ''fakeroot'' then ''fakeroot '' else [])"

definition install_cmd :: "env \<Rightarrow> Config \<Rightarrow> Recipe \<Rightarrow> string" where
  \<comment> \<open>the command line \<^verbatim>\<open>cmd_install\<close> builds for the install hook\<close>
  "install_cmd e c r =
     ''bash -lc '' @ sq @ ''cd '' @ work_dir c r @ '' && '' @ fakeroot_if_available e
       @ '' DESTDIR='' @ destdir_pkg c r @ '' ''
       @ ensure_destdir_in_install (if install r = [] then ''make install'' else install r) @ sq"

definition strip_cmd :: "path \<Rightarrow> string" where
  "strip_cmd p = ''strip --strip-unneeded '' @ quoted p @ '' || true''"

fun strip_loop :: "env \<Rightarrow> path list \<Rightarrow> nat \<Rightarrow> world \<Rightarrow> nat \<times> world" where
  \<comment> \<open>\<^verbatim>\<open>rc |= exec_cmd(...)\<close> for every ELF file met\<close>
  "strip_loop e [] rc w = (rc, w)"
| "strip_loop e (p # ps) rc w =
     (if fs_is_regular_file (files w) p \<and> is_elf (files w) p
      then (case exec_cmd e (strip_cmd p) w of
              (code, w1) \<Rightarrow> strip_loop e ps (or rc code) w1)
      else strip_loop e ps rc w)"

definition strip_binaries :: "env \<Rightarrow> path \<Rightarrow> world \<Rightarrow> nat outcome \<times> world" where
  "strip_binaries e dest w =
     (if \<not> fs_is_directory (files w) dest then (Threw fs_error, w)
      else (case strip_loop e (fs_recursive_list (files w) dest) 0 w of
              (rc, w') \<Rightarrow> (Returned rc, w')))"

definition collect_manifest :: "path \<Rightarrow> path \<Rightarrow> world \<Rightarrow> nat outcome \<times> world" where
  \<comment> \<open>the manifest is opened (and so created) before the root is walked\<close>
  "collect_manifest dest manifest w =
     (case fs_write (files w) manifest [] of
        None \<Rightarrow> (Returned 1, w)
      | Some fs1 \<Rightarrow>
          if \<not> fs_is_directory fs1 dest then (Threw fs_error, w\<lparr>files := fs1\<rparr>)
          else (Returned 0,
                w\<lparr>files :=
                    (case fs_write fs1 manifest
                            (concat (map (\<lambda>p. relative_to p dest @ [CHR 0x0A])
                               (filter (fs_is_regular_file fs1) (fs_recursive_list fs1 dest)))) of
                       None \<Rightarrow> fs1
                     | Some fs2 \<Rightarrow> fs2)\<rparr>))"

definition install_failed_msg :: string where
  "install_failed_msg =
     ''Instala'' @ [CHR 0xC3, CHR 0xA7, CHR 0xC3, CHR 0xA3] @ ''o falhou ''
       @ [CHR 0xE2, CHR 0x80, CHR 0x94] @ '' restaurando snapshot''"

definition cmd_install :: "env \<Rightarrow> Config \<Rightarrow> Recipe \<Rightarrow> world \<Rightarrow> nat outcome \<times> world" where
  "cmd_install e c r w =
     (let wd = work_dir c r; dest = destdir_pkg c r
      in case fs_remove_all e dest w of
           (Threw m, w0) \<Rightarrow> (Threw m, w0)
         | (Returned u, w0) \<Rightarrow>
             (case fs_create_directories (files w0) dest of
                None \<Rightarrow> (Threw fs_error, w0)
              | Some fs1 \<Rightarrow>
                  (let snap = snapshot_tar c r
                   in case make_snapshot e dest snap (w0\<lparr>files := fs1\<rparr>) of
                        (Threw m, w2) \<Rightarrow> (Threw m, w2)
                      | (Returned u, w2) \<Rightarrow>
                          (case exec_cmd e (install_cmd e c r) w2 of
                             (rc, w3) \<Rightarrow>
                               if rc \<noteq> 0 then
                                 (case restore_snapshot e dest snap (log_err install_failed_msg w3) of
                                    (Threw m, w4) \<Rightarrow> (Threw m, w4)
                                  | (Returned u, w4) \<Rightarrow> (Returned rc, w4))
                               else
                                 (case (if strip r then strip_binaries e dest w3 else (Returned 0, w3)) of
                                    (Threw m, w4) \<Rightarrow> (Threw m, w4)
                                  | (Returned u, w4) \<Rightarrow>
                                      (case collect_manifest dest (install_manifest c r) w4 of
                                         (Threw m, w5) \<Rightarrow> (Threw m, w5)
                                       | (Returned u, w5) \<Rightarrow>
                                           (case run_step e ''postinstall'' wd (postinstall r) w5 of
                                              (rc, w6) \<Rightarrow>
                                                if rc \<noteq> 0 then (Returned rc, w6)
                                                else (Returned 0,
                                                      log_ok (''Instalado em DESTDIR: '' @ dest) w6))))))))"

definition manifest_lines :: "fsys \<Rightarrow> path \<Rightarrow> string list" where
  \<comment> \<open>\<^verbatim>\<open>std::ifstream in(manf); while (std::getline(in, rel))\<close>\<close>
  "manifest_lines fs manf =
     (case fs_lookup fs manf of Some (File content) \<Rightarrow> getline_split (CHR 0x0A) content | _ \<Rightarrow> [])"

definition unlink_listed :: "path \<Rightarrow> path \<Rightarrow> fsys \<Rightarrow> fsys" where
  \<comment> \<open>\<^verbatim>\<open>while (std::getline(in, rel)) { fs::path f = dest/rel; fs::remove(f, ec); }\<close>\<close>
  "unlink_listed dest manf fs =
     foldl (\<lambda>fs rel. fs_remove fs (pjoin dest rel)) fs (manifest_lines fs manf)"

definition run_postremove :: "env \<Rightarrow> Recipe \<Rightarrow> world \<Rightarrow> world" where
  \<comment> \<open>\<^verbatim>\<open>if (!r.postremove.empty()) { exec_cmd(r.postremove, log); }\<close>: the status is not read\<close>
  "run_postremove e r w = (if postremove r \<noteq> [] then snd (exec_cmd e (postremove r) w) else w)"

definition cmd_remove :: "env \<Rightarrow> Config \<Rightarrow> Recipe \<Rightarrow> world \<Rightarrow> nat outcome \<times> world" where
  "cmd_remove e c r w =
     (let dest = destdir_pkg c r; manf = install_manifest c r; snap = snapshot_tar c r
      in case make_snapshot e dest snap w of
           (Threw m, w1) \<Rightarrow> (Threw m, w1)
         | (Returned u, w1) \<Rightarrow>
             if fs_exists (files w1) manf then
               (case fs_remove_all e dest (w1\<lparr>files := unlink_listed dest manf (files w1)\<rparr>) of
                  (Threw m, w2) \<Rightarrow> (Threw m, w2)
                | (Returned u, w2) \<Rightarrow>
                    (Returned 0, run_postremove e r (log_ok (''Removido DESTDIR: '' @ dest) w2)))
             else
               (case fs_remove_all e dest
                       (log_warn (''Manifesto n'' @ [CHR 0xC3, CHR 0xA3] @ ''o encontrado: '' @ manf
                                    @ '', limpando DESTDIR'') w1) of
                  (Threw m, w2) \<Rightarrow> (Threw m, w2)
                | (Returned u, w2) \<Rightarrow> (Returned 0, run_postremove e r w2)))"

subsection \<open>Reverse dependencies\<close>

type_synonym depmap = "string \<rightharpoonup> string set"

definition dep_insert :: "string \<Rightarrow> string \<Rightarrow> depmap \<Rightarrow> depmap" where
  \<comment> \<open>\<^verbatim>\<open>dep2bins[lib].insert(bin)\<close> on a \<^verbatim>\<open>std::map<std::string, std::set<std::string>>\<close>\<close>
  "dep_insert lib bin m = m(lib \<mapsto> insert bin (case m lib of None \<Rightarrow> {} | Some s \<Rightarrow> s))"

definition revdep_line :: "string \<Rightarrow> string \<Rightarrow> depmap \<Rightarrow> depmap" where
  "revdep_line bin line m =
     (let lib = erase_spaces line in if lib \<noteq> [] then dep_insert lib bin m else m)"

definition revdep_file :: "env \<Rightarrow> fsys \<Rightarrow> path \<Rightarrow> path \<Rightarrow> depmap \<Rightarrow> depmap" where
  "revdep_file e fs dest p m =
     (if fs_is_regular_file fs p \<and> is_elf fs p
      then fold (revdep_line (relative_to p dest)) (ldd_lines e fs p) m
      else m)"

definition revdep_scan :: "env \<Rightarrow> fsys \<Rightarrow> path \<Rightarrow> path list \<Rightarrow> depmap" where
  \<comment> \<open>the loop over \<^verbatim>\<open>fs::recursive_directory_iterator(dest)\<close>, for the entries in the order given\<close>
  "revdep_scan e fs dest entries = fold (revdep_file e fs dest) entries Map.empty"

fun join_comma :: "string list \<Rightarrow> string" where
  "join_comma [] = []"
| "join_comma [b] = b"
| "join_comma (b # bs) = b @ '', '' @ join_comma bs"

definition revdep_table :: "depmap \<Rightarrow> (string \<times> string list) list" where
  \<comment> \<open>a \<^verbatim>\<open>std::map\<close> and a \<^verbatim>\<open>std::set\<close> are iterated in ascending order of their keys\<close>
  "revdep_table m =
     map (\<lambda>lib. (lib, sorted_list_of_set (case m lib of None \<Rightarrow> {} | Some s \<Rightarrow> s)))
       (sorted_list_of_set (dom m))"

definition revdep_report :: "depmap \<Rightarrow> string list" where
  \<comment> \<open>the lines printed on standard output\<close>
  "revdep_report m =
     map (\<lambda>(lib, bins). [CHR 0x1B] @ ''[1m'' @ lib @ [CHR 0x1B] @ ''[0m'' @ '' <- '' @ join_comma bins)
       (revdep_table m)"

definition cmd_revdep :: "env \<Rightarrow> Config \<Rightarrow> Recipe \<Rightarrow> world \<Rightarrow> nat outcome \<times> string list \<times> world" where
  \<comment> \<open>status, lines on standard output, state\<close>
  "cmd_revdep e c r w =
     (let dest = destdir_pkg c r
      in if \<not> fs_exists (files w) dest
         then (Returned 1, [], log_err (''DESTDIR inexistente: '' @ dest) w)
         else if \<not> fs_is_directory (files w) dest then (Threw fs_error, [], w)
         else (Returned 0,
               revdep_report (revdep_scan e (files w) dest (fs_recursive_list (files w) dest)), w))"

definition lower_hex :: "string \<Rightarrow> bool" where
  \<comment> \<open>a digest as \<^verbatim>\<open>sha256sum\<close> prints it: digits and the letters \<open>a\<close> to \<open>f\<close>\<close>
  "lower_hex s = list_all (\<lambda>ch. ch \<in> set ''0123456789abcdef'') s"

definition has_upper_hex :: "string \<Rightarrow> bool" where
  \<comment> \<open>a declared checksum that uses an upper-case hexadecimal digit\<close>
  "has_upper_hex s = list_ex (\<lambda>ch. ch \<in> set ''ABCDEF'') s"

definition runs_only :: "string set \<Rightarrow> world \<Rightarrow> world \<Rightarrow> bool" where
  \<comment> \<open>from \<open>w\<close> to \<open>w'\<close> the log has only grown, and every command run in between is in \<open>X\<close>\<close>
  "runs_only X w w' = (prefix (logv w) (logv w') \<and> set (commands_run w w') \<subseteq> X)"

definition install_tail_cmds :: "Config \<Rightarrow> Recipe \<Rightarrow> string set" where
  \<comment> \<open>the commands \<^verbatim>\<open>cmd_install\<close> can run after the install hook\<close>
  "install_tail_cmds c r =
     {restore_zstd_cmd (destdir_pkg c r) (snapshot_tar c r),
      restore_gzip_cmd (destdir_pkg c r) (snapshot_tar c r),
      step_cmd (work_dir c r) (postinstall r)} \<union> range strip_cmd"

definition finite_deps :: "depmap \<Rightarrow> bool" where
  \<comment> \<open>finitely many libraries, each with finitely many dependents\<close>
  "finite_deps m = (finite (dom m) \<and> (\<forall>s \<in> ran m. finite s))"

subsection \<open>Concrete scenarios\<close>

text \<open>Small configurations, recipes and environments on which the steps are run below.\<close>

definition cfg0 :: Config where
  "cfg0 = \<lparr>base = ''cb'', recipes = ''cb/rc'', sources = ''cb/src'', work = ''cb/wk'',
           destroot = ''cb/dd'', logs = ''cb/lg'', repo = ''cb/rp'', snapshots = ''cb/sn''\<rparr>"

definition rcp0 :: Recipe where
  "rcp0 = \<lparr>name = ''p'', version = ''1'', url = [], sha256 = [], vcs = [], patches = [],
           postremove = [], strip = False, submodules = False, prebuild = [], configure = [],
           prepare = [], build = [], install = [], postinstall = []\<rparr>"

definition w_init :: "fsys \<Rightarrow> world" where
  "w_init fs = \<lparr>files = fs, logv = []\<rparr>"

definition no_fault :: "fsys \<Rightarrow> path \<Rightarrow> fsys option" where
  \<comment> \<open>the operating system lets every tree be deleted\<close>
  "no_fault fs p = None"

definition env_fail :: env where
  \<comment> \<open>every command exits with status 1 and touches nothing\<close>
  "env_fail = \<lparr>sh = (\<lambda>cmd fs. (Exited 1, fs)), has_tool = (\<lambda>t. True),
               sha256sum_line = (\<lambda>fs p. None), ldd_lines = (\<lambda>fs p. []), str_hash = (\<lambda>s. 0),
               rm_fault = no_fault\<rparr>"

definition rcp_patch :: Recipe where
  "rcp_patch = rcp0\<lparr>patches := ''./a.patch, b.patch,c.patch''\<rparr>"

definition env_patch :: env where
  \<comment> \<open>every command naming \<open>b.patch\<close> fails; any other succeeds and leaves a mark in the work tree\<close>
  "env_patch = \<lparr>sh = (\<lambda>cmd fs. if contains cmd ''b.patch'' then (Exited 1, fs)
                                else (Exited 0, fs_put fs ''cb/wk/p-1/mark'' ''A'')),
                has_tool = (\<lambda>t. True),
                sha256sum_line = (\<lambda>fs p. None), ldd_lines = (\<lambda>fs p. []), str_hash = (\<lambda>s. 0),
                rm_fault = no_fault\<rparr>"

definition w_patch :: world where
  "w_patch = w_init [(''cb'', Dir), (''cb/wk'', Dir), (''cb/wk/p-1'', Dir), (''cb/wk/p-1/.git'', Dir),
                     (''cb/rc'', Dir), (''cb/rc/p'', Dir), (''cb/rc/p/a.patch'', File ''a''),
                     (''cb/rc/p/b.patch'', File ''b''), (''cb/rc/p/c.patch'', File ''c'')]"

definition rcp_url :: Recipe where
  "rcp_url = rcp0\<lparr>url := ''http://h/a.tar.gz''\<rparr>"

definition rcp_upper :: Recipe where
  \<comment> \<open>the digest of \<open>env_net\<close>, declared in upper case\<close>
  "rcp_upper = rcp0\<lparr>url := ''http://h/a.tar.gz'', sha256 := '' AB12 ''\<rparr>"

definition rcp_bad :: Recipe where
  \<comment> \<open>a declared digest that differs from the one \<open>env_net\<close> computes\<close>
  "rcp_bad = rcp0\<lparr>url := ''http://h/a.tar.gz'', sha256 := ''ab13''\<rparr>"

definition env_net :: env where
  \<comment> \<open>every command succeeds; \<^verbatim>\<open>curl\<close> writes the artifact; the digest tool prints \<open>ab12\<close>\<close>
  "env_net = \<lparr>sh = (\<lambda>cmd fs. if starts_with cmd ''curl''
                               then (Exited 0, fs_put fs ''cb/src/a.tar.gz'' ''corrupt'')
                               else (Exited 0, fs)),
              has_tool = (\<lambda>t. True),
              sha256sum_line = (\<lambda>fs p. Some (''ab12'' @ [CHR 0x0A])),
              ldd_lines = (\<lambda>fs p. []), str_hash = (\<lambda>s. 0), rm_fault = no_fault\<rparr>"

definition w_src :: world where
  "w_src = w_init [(''cb'', Dir), (''cb/src'', Dir), (''cb/src/a.tar.gz'', File ''data'')]"

definition env_arch :: env where
  \<comment> \<open>the install hook \<^verbatim>\<open>make install\<close> writes one file and exits with 2; the archiver writes
      the archive, the restore unpacks the one file it holds; every other command succeeds
      and changes nothing\<close>
  "env_arch = \<lparr>sh = (\<lambda>cmd fs.
                 if contains cmd ''make install'' then (Exited 2, fs_put fs ''cb/dd/p-1/partial'' ''x'')
                 else if contains cmd ''zstd -cq'' then (Exited 0, fs_put fs ''cb/sn/p-1.tar.zst'' ''old=v1'')
                 else if contains cmd ''zstd -dc'' then (Exited 0, fs_put fs ''cb/dd/p-1/old'' ''v1'')
                 else (Exited 0, fs)),
               has_tool = (\<lambda>t. True),
               sha256sum_line = (\<lambda>fs p. None), ldd_lines = (\<lambda>fs p. []), str_hash = (\<lambda>s. 0),
               rm_fault = no_fault\<rparr>"

definition env_tarfail :: env where
  \<comment> \<open>the archiver fails, every other command succeeds\<close>
  "env_tarfail = \<lparr>sh = (\<lambda>cmd fs. if contains cmd ''tar '' then (Exited 2, fs) else (Exited 0, fs)),
               has_tool = (\<lambda>t. True),
               sha256sum_line = (\<lambda>fs p. None), ldd_lines = (\<lambda>fs p. []), str_hash = (\<lambda>s. 0),
               rm_fault = no_fault\<rparr>"

definition w_old :: world where
  \<comment> \<open>a root that holds the file of an earlier install; no manifest, no snapshot\<close>
  "w_old = w_init [(''cb'', Dir), (''cb/dd'', Dir), (''cb/dd/p-1'', Dir), (''cb/dd/p-1/old'', File ''v1'')]"

definition rcp_true :: Recipe where
  \<comment> \<open>an install hook that \<open>env_arch\<close> lets succeed\<close>
  "rcp_true = rcp0\<lparr>install := ''true''\<rparr>"

definition rcp_post :: Recipe where
  "rcp_post = rcp0\<lparr>postremove := ''false''\<rparr>"

definition env_post :: env where
  \<comment> \<open>the hook \<^verbatim>\<open>false\<close> exits with 1; the archiver writes the archive; every other command
      succeeds and changes nothing\<close>
  "env_post = \<lparr>sh = (\<lambda>cmd fs.
                 if starts_with cmd ''false'' then (Exited 1, fs)
                 else if contains cmd ''zstd -cq'' then (Exited 0, fs_put fs ''cb/sn/p-1.tar.zst'' ''old=v1'')
                 else (Exited 0, fs)),
               has_tool = (\<lambda>t. True),
               sha256sum_line = (\<lambda>fs p. None), ldd_lines = (\<lambda>fs p. []), str_hash = (\<lambda>s. 0),
               rm_fault = no_fault\<rparr>"

definition env_locked :: env where
  \<comment> \<open>as \<open>env_post\<close>, but the directory \<open>keep\<close> of the root may not be emptied: deleting the
      root removes \<open>doc\<close>, then fails\<close>
  "env_locked = env_post\<lparr>rm_fault := (\<lambda>fs p. if p = ''cb/dd/p-1''
                                                then Some (fs_drop fs ''cb/dd/p-1/doc'') else None)\<rparr>"

definition w_inst :: world where
  \<comment> \<open>an installed root with its manifest, which lists \<open>old\<close> only\<close>
  "w_inst = w_init [(''cb'', Dir), (''cb/dd'', Dir), (''cb/dd/p-1'', Dir), (''cb/dd/p-1/old'', File ''v1''),
                    (''cb/dd/p-1/doc'', File ''d''),
                    (''cb/dd/p-1/keep'', Dir), (''cb/dd/p-1/keep/extra'', File ''x''),
                    (''cb/lg'', Dir), (''cb/lg/p-1.manifest'', File (''old'' @ [CHR 0x0A]))]"

definition env_ldd :: env where
  \<comment> \<open>\<open>bin/a\<close> links against two libraries, any other binary against one\<close>
  "env_ldd = \<lparr>sh = (\<lambda>cmd fs. (Exited 0, fs)), has_tool = (\<lambda>t. True),
              sha256sum_line = (\<lambda>fs p. None),
              ldd_lines = (\<lambda>fs p. if p = ''cb/dd/p-1/bin/a''
                                    then [''libz.so.1'' @ [CHR 0x0A], ''libc.so.6'' @ [CHR 0x0A]]
                                    else [''libc.so.6'' @ [CHR 0x0A]]),
              str_hash = (\<lambda>s. 0), rm_fault = no_fault\<rparr>"

definition fs_bins :: fsys where
  "fs_bins = [(''cb/dd/p-1'', Dir), (''cb/dd/p-1/bin'', Dir),
              (''cb/dd/p-1/bin/b'', File ([CHR 0x7F] @ ''ELF-b'')),
              (''cb/dd/p-1/bin/a'', File ([CHR 0x7F] @ ''ELF-a'')),
              (''cb/dd/p-1/readme'', File ''text'')]"

section \<open>Properties\<close>

subsection \<open>The log only grows, and records every command\<close>

lemma exec_cmd_log:
  assumes "exec_cmd e cmd w = (rc, w')"
  shows "\<exists>t. logv w' = logv w @ (''[INFO]: $ '' @ cmd) # t
             \<and> filter (prefix ''[INFO]: $ '') t = []"
  using assms
  by (auto simp: exec_cmd_def Let_def log_info_def log_ok_def log_err_def log_write_def
           split: prod.splits proc.splits if_splits)

lemma commands_run_exec:
  assumes "exec_cmd e cmd w = (rc, w')"
  shows "commands_run w w' = [cmd]"
  using exec_cmd_log [OF assms] by (auto simp: commands_run_def)

lemma exec_cmd_log_mono:
  assumes "exec_cmd e cmd w = (rc, w')"
  shows "prefix (logv w) (logv w')"
  using exec_cmd_log [OF assms] by auto

lemma commands_run_trans:
  assumes "prefix (logv w) (logv w1)" "prefix (logv w1) (logv w2)"
  shows "commands_run w w2 = commands_run w w1 @ commands_run w1 w2"
proof -
  obtain a where a: "logv w1 = logv w @ a" using assms(1) by (auto simp: prefix_def)
  obtain b where b: "logv w2 = logv w1 @ b" using assms(2) by (auto simp: prefix_def)
  show ?thesis by (simp add: commands_run_def a b)
qed

lemma commands_run_same_log:
  assumes "logv w' = logv w"
  shows "commands_run w w' = []"
  using assms by (simp add: commands_run_def)

subsection \<open>Applying one patch file\<close>





text \<open>
  The predecessor \<^verbatim>\<open>cbuild.cpp\<close> has the last two steps only: \<^verbatim>\<open>patch -p1\<close>, then
  \<^verbatim>\<open>patch -p0\<close>.
\<close>

lemma v0_apply_patch_file_order:
  assumes "exec_cmd e (patch_cmd ''1'' patch wd) w = (r2, w2)"
      and "exec_cmd e (patch_cmd ''0'' patch wd) w2 = (r3, w3)"
  shows "v0_apply_patch_file e patch wd w = (if r2 = 0 then (0, w2) else (r3, w3))"
  using assms by (simp add: v0_apply_patch_file_def)

subsection \<open>Steps that draw the progress indicator\<close>

text \<open>
  No status other than 0 comes back from \<^verbatim>\<open>cmd_fetch\<close> or \<^verbatim>\<open>cmd_extract\<close>, and from
  \<^verbatim>\<open>cmd_patch\<close> only the 5 of the missing work directory, which is returned in front of
  the \<^verbatim>\<open>Spinner\<close>: every other \<^verbatim>\<open>return\<close> of a status leaves with the thread running.
\<close>

lemma cmd_fetch_returns_only_zero:
  "fst (cmd_fetch e c r w) = Normal (Returned rc) \<Longrightarrow> rc = 0"
  by (auto simp: cmd_fetch_def Let_def split: prod.splits outcome.splits option.splits if_splits)

lemma cmd_extract_returns_only_zero:
  "fst (cmd_extract e c r w) = Normal (Returned rc) \<Longrightarrow> rc = 0"
  by (auto simp: cmd_extract_def Let_def split: prod.splits outcome.splits option.splits if_splits)

lemma cmd_patch_returns_only_zero_or_five:
  "fst (cmd_patch e c r w) = Normal (Returned rc) \<Longrightarrow> rc = 0 \<or> rc = 5"
  by (auto simp: cmd_patch_def Let_def split: prod.splits outcome.splits option.splits if_splits)

subsection \<open>File system facts\<close>

lemma node_at_mono:
  assumes "map_of fs \<subseteq>\<^sub>m map_of fs'" and "node_at fs k = Some n"
  shows "node_at fs' k = Some n"
proof (cases "k = [] \<or> k = ''/''")
  case True
  with assms(2) show ?thesis by (simp add: node_at_def)
next
  case False
  with assms(2) have "map_of fs k = Some n" by (simp add: node_at_def)
  then have "k \<in> dom (map_of fs)" by (rule domI)
  with assms(1) have "map_of fs k = map_of fs' k" by (simp add: map_le_def)
  with \<open>map_of fs k = Some n\<close> False show ?thesis by (simp add: node_at_def)
qed

lemma walk_mono:
  assumes "map_of fs \<subseteq>\<^sub>m map_of fs'"
  shows "walk fs ab acc cs = Some k \<Longrightarrow> walk fs' ab acc cs = Some k"
proof (induction cs arbitrary: acc)
  case Nil
  then show ?case by simp
next
  case (Cons c cs)
  show ?case
  proof (cases "c = [] \<or> c = ''.'' \<or> c = ''..''")
    case False
    with Cons.prems have "walk fs ab (c # acc) cs = Some k" by simp
    then have "walk fs' ab (c # acc) cs = Some k" by (rule Cons.IH)
    with False show ?thesis by simp
  next
    case True
    with Cons.prems have d: "node_at fs (spell ab (rev acc)) = Some Dir"
      by (simp split: if_splits)
    have d': "node_at fs' (spell ab (rev acc)) = Some Dir"
      by (rule node_at_mono [OF assms d])
    show ?thesis
    proof (cases "c = ''..''")
      case True
      with Cons.prems d have "\<not> (acc = [] \<and> \<not> ab)" and "walk fs ab (tl acc) cs = Some k"
        by (simp_all split: if_splits)
      moreover from this(2) have "walk fs' ab (tl acc) cs = Some k" by (rule Cons.IH)
      ultimately show ?thesis using True d' by simp
    next
      case False
      with True Cons.prems d have "walk fs ab acc cs = Some k" by simp
      then have "walk fs' ab acc cs = Some k" by (rule Cons.IH)
      with True False d' show ?thesis by simp
    qed
  qed
qed

lemma resolve_mono:
  assumes "map_of fs \<subseteq>\<^sub>m map_of fs'" and "resolve fs p = Some k"
  shows "resolve fs' p = Some k"
  using assms(2) walk_mono [OF assms(1)] by (simp add: resolve_def split: if_splits)

lemma fs_lookup_mono:
  assumes "map_of fs \<subseteq>\<^sub>m map_of fs'" and "fs_lookup fs p = Some n"
  shows "fs_lookup fs' p = Some n"
proof -
  from assms(2) obtain k where k: "resolve fs p = Some k" and n: "node_at fs k = Some n"
    by (auto simp: fs_lookup_def split: option.splits)
  from resolve_mono [OF assms(1) k] node_at_mono [OF assms(1) n] show ?thesis
    by (simp add: fs_lookup_def)
qed

lemma map_le_snoc:
  assumes "map_of fs k = None"
  shows "map_of fs \<subseteq>\<^sub>m map_of (fs @ [(k, n)])"
  using assms by (auto simp: map_le_def map_add_def dom_def split: option.splits)

lemma mkdirs_map_le:
  "mkdirs fs ab acc cs = Some fs1 \<Longrightarrow> map_of fs \<subseteq>\<^sub>m map_of fs1"
proof (induction cs arbitrary: fs acc)
  case Nil
  then show ?case by simp
next
  case (Cons c cs)
  show ?case
  proof (cases "c = [] \<or> c = ''.''")
    case True
    with Cons.prems have "mkdirs fs ab acc cs = Some fs1" by auto
    then show ?thesis by (rule Cons.IH)
  next
    case False
    note plain = this
    show ?thesis
    proof (cases "c = ''..''")
      case True
      with plain Cons.prems have "mkdirs fs ab (tl acc) cs = Some fs1"
        by (simp split: if_splits)
      then show ?thesis by (rule Cons.IH)
    next
      case False
      let ?k = "spell ab (rev (c # acc))"
      show ?thesis
      proof (cases "map_of fs ?k")
        case None
        with plain False Cons.prems have "mkdirs (fs @ [(?k, Dir)]) ab (c # acc) cs = Some fs1"
          by simp
        then have "map_of (fs @ [(?k, Dir)]) \<subseteq>\<^sub>m map_of fs1" by (rule Cons.IH)
        with map_le_snoc [OF None] show ?thesis by (rule map_le_trans)
      next
        case (Some n)
        with plain False Cons.prems have "mkdirs fs ab (c # acc) cs = Some fs1"
          by (cases n) simp_all
        then show ?thesis by (rule Cons.IH)
      qed
    qed
  qed
qed

lemma fs_create_directories_map_le:
  "fs_create_directories fs d = Some fs1 \<Longrightarrow> map_of fs \<subseteq>\<^sub>m map_of fs1"
  by (auto simp: fs_create_directories_def split: if_splits dest: mkdirs_map_le)

lemma fs_create_directories_lookup:
  assumes "fs_create_directories fs d = Some fs1" and "fs_exists fs p"
  shows "fs_lookup fs1 p = fs_lookup fs p"
proof -
  from assms(2) obtain n where n: "fs_lookup fs p = Some n" by (auto simp: fs_exists_def)
  from fs_lookup_mono [OF fs_create_directories_map_le [OF assms(1)] n] n show ?thesis by simp
qed

lemma map_of_filter_key:
  "map_of (filter (\<lambda>(q, n). P q) fs) k = (if P k then map_of fs k else None)"
  by (induction fs) auto

lemma fs_drop_map_le: "map_of (fs_drop fs k) \<subseteq>\<^sub>m map_of fs"
  by (simp add: fs_drop_def map_le_def map_of_filter_key dom_def)

lemma fs_drop_below_map_le: "map_of (fs_drop_below fs k) \<subseteq>\<^sub>m map_of fs"
  by (simp add: fs_drop_below_def map_le_def map_of_filter_key dom_def)

lemma fs_remove_all_log:
  "fs_remove_all e p w = (res, w') \<Longrightarrow> logv w' = logv w"
  by (auto simp: fs_remove_all_def split: option.splits if_splits)

lemma fs_remove_all_gone:
  assumes "fs_remove_all e p w = (Returned (), w')"
  shows "\<not> fs_exists (files w') p"
proof (cases "resolve (files w) p")
  case None
  with assms have "w' = w" by (auto simp: fs_remove_all_def split: option.splits)
  with None show ?thesis by (simp add: fs_exists_def fs_lookup_def)
next
  case (Some k)
  let ?fs' = "fs_drop (fs_drop_below (files w) k) k"
  from assms Some have k: "k \<noteq> []" "k \<noteq> ''/''" and w': "files w' = ?fs'"
    by (auto simp: fs_remove_all_def split: option.splits if_splits)
  have le: "map_of ?fs' \<subseteq>\<^sub>m map_of (files w)"
    by (rule map_le_trans [OF fs_drop_map_le fs_drop_below_map_le])
  show ?thesis
  proof
    assume "fs_exists (files w') p"
    then obtain k' where r: "resolve ?fs' p = Some k'" and n: "node_at ?fs' k' \<noteq> None"
      by (auto simp: fs_exists_def fs_lookup_def w' split: option.splits)
    from resolve_mono [OF le r] Some have "k' = k" by simp
    with n k show False by (simp add: node_at_def fs_drop_def map_of_filter_key)
  qed
qed

text \<open>
  Two spellings of one file lead to the same entry; a final slash asks for a directory; a
  path through a directory that does not exist leads nowhere.
\<close>

lemma path_spellings:
  "fs_lookup (files w_patch) ''cb/rc/p/./a.patch'' = Some (File ''a'')
   \<and> fs_lookup (files w_patch) ''cb//rc/p/../p/a.patch'' = Some (File ''a'')
   \<and> fs_is_directory (files w_src) ''cb/src/''
   \<and> \<not> fs_exists (files w_src) ''cb/src/a.tar.gz/''
   \<and> \<not> fs_exists (files w_src) ''cb/none/../src''"
  by code_simp

subsection \<open>The patch step\<close>

lemma patch_loop_append:
  "patch_loop e c r wd (xs @ ys) w =
     (case patch_loop e c r wd xs w of
        (Returned rc, w1) \<Rightarrow> if rc \<noteq> 0 then (Returned rc, w1) else patch_loop e c r wd ys w1
      | (Threw m, w1) \<Rightarrow> (Threw m, w1))"
  by (induction xs arbitrary: w) (auto split: prod.splits outcome.splits)

text \<open>
  The entries of \<^verbatim>\<open>patches\<close> are processed in the order listed, each in the state the
  one before it left. When the entries \<open>pre\<close> before \<open>b\<close> all go through (status 0,
  reaching state \<open>w1\<close>) and \<open>b\<close> fails there, with a status other than 0 or with an
  exception, the step ends at \<open>b\<close>: the state is the one \<open>b\<close> left on top of \<open>w1\<close> (what
  \<open>pre\<close> did is still there, nothing is undone) and nothing of the later entries \<open>post\<close>
  is run or logged. The step does not hand the failure of \<open>b\<close> to its caller, though:
  it leaves the loop with its \<^verbatim>\<open>Spinner\<close> running, and the process is terminated.
\<close>

lemma cmd_patch_stops_at_first_failure:
  assumes "patches r \<noteq> []"
      and "fs_exists (files w) (work_dir c r)"
      and "ensure_git_repo e (work_dir c r) w = (Returned (), w0)"
      and "getline_split (CHR '','') (patches r) = pre @ b # post"
      and "patch_loop e c r (work_dir c r) pre w0 = (Returned 0, w1)"
      and "trim b \<noteq> []"
      and "fst (patch_entry e c r (work_dir c r) (trim b) w1) \<noteq> Returned 0"
  shows "cmd_patch e c r w = (Terminated, snd (patch_entry e c r (work_dir c r) (trim b) w1))"
proof -
  obtain res w2 where pe: "patch_entry e c r (work_dir c r) (trim b) w1 = (res, w2)"
    by (cases "patch_entry e c r (work_dir c r) (trim b) w1")
  with assms(7) have ne: "res \<noteq> Returned 0" by simp
  have "patch_loop e c r (work_dir c r) (b # post) w1 = (res, w2)"
    using pe ne assms(6) by (cases res) auto
  then have "patch_loop e c r (work_dir c r) (pre @ b # post) w0 = (res, w2)"
    using assms(5) by (simp add: patch_loop_append)
  then show ?thesis
    using assms(1-4) pe ne by (cases res) (simp_all add: cmd_patch_def Let_def)
qed

lemma cmd_patch_all_pass:
  assumes "patches r \<noteq> []"
      and "fs_exists (files w) (work_dir c r)"
      and "ensure_git_repo e (work_dir c r) w = (Returned (), w0)"
      and "patch_loop e c r (work_dir c r) (getline_split (CHR '','') (patches r)) w0 = (Returned 0, w1)"
  shows "cmd_patch e c r w = (Normal (Returned 0), w1)"
  using assms by (simp add: cmd_patch_def Let_def)

text \<open>
  Claim C4 against the code. The scenario of the specification: the patches \<open>a\<close>, \<open>b\<close>,
  \<open>c\<close>, listed in this order, where every attempt on \<open>b\<close> fails with status 1. The
  entries are taken in the order listed; \<open>a\<close> is applied and its mark is still in the
  work tree at the end; the entry \<open>b\<close> yields status 1; no line of the log names \<open>c\<close>.
  But \<^verbatim>\<open>cmd_patch\<close> does not fail with that status: it leaves through
  \<^verbatim>\<open>if (rc) return rc;\<close> while the thread of its \<^verbatim>\<open>Spinner\<close> is joinable (\<^verbatim>\<open>sp.stop()\<close>
  stands only behind the loop), and the process is terminated.
\<close>

theorem patch_failure_terminates_process:
  "getline_split (CHR '','') (patches rcp_patch) = [''./a.patch'', '' b.patch'', ''c.patch'']
   \<and> fst (patch_loop env_patch cfg0 rcp_patch (work_dir cfg0 rcp_patch) [''./a.patch''] w_patch)
       = Returned 0
   \<and> fst (patch_entry env_patch cfg0 rcp_patch (work_dir cfg0 rcp_patch) (trim '' b.patch'')
            (snd (patch_loop env_patch cfg0 rcp_patch (work_dir cfg0 rcp_patch) [''./a.patch''] w_patch)))
       = Returned 1
   \<and> cmd_patch env_patch cfg0 rcp_patch w_patch =
       (Terminated,
        snd (patch_entry env_patch cfg0 rcp_patch (work_dir cfg0 rcp_patch) (trim '' b.patch'')
              (snd (patch_loop env_patch cfg0 rcp_patch (work_dir cfg0 rcp_patch) [''./a.patch''] w_patch))))
   \<and> fs_lookup (files (snd (cmd_patch env_patch cfg0 rcp_patch w_patch))) ''cb/wk/p-1/mark''
       = Some (File ''A'')
   \<and> filter (\<lambda>l. contains l ''c.patch'') (logv (snd (cmd_patch env_patch cfg0 rcp_patch w_patch))) = []"
  by code_simp

subsection \<open>Fetch\<close>

lemma check_tools_from_state:
  "check_tools_from e True ts w = (res, w') \<Longrightarrow> w' = w"
  by (induction ts arbitrary: w) (auto split: if_splits)

lemma check_tools_state:
  "check_tools e True w = (res, w') \<Longrightarrow> w' = w"
  unfolding check_tools_def by (rule check_tools_from_state)

lemma fetch_verify_quiet:
  assumes "fetch_verify e dst sums i w = (rc, w')"
  shows "files w' = files w \<and> commands_run w w' = []"
  using assms
  by (auto simp: fetch_verify_def Let_def log_err_def log_ok_def log_write_def commands_run_def
           split: if_splits)

lemma fetch_download_present:
  assumes "fs_exists (files w) dst" and "fetch_download e dst u w = (rc, w')"
  shows "rc = 0 \<and> files w' = files w \<and> commands_run w w' = [] \<and> prefix (logv w) (logv w')"
  using assms
  by (auto simp: fetch_download_def log_info_def log_write_def commands_run_def)

lemma fetch_verify_log:
  assumes "fetch_verify e dst sums i w = (rc, w')"
  shows "prefix (logv w) (logv w')"
  using assms
  by (auto simp: fetch_verify_def Let_def log_err_def log_ok_def log_write_def split: if_splits)

lemma fetch_index_present:
  assumes "i < length (source_paths c r)" and "fs_exists (files w) (source_paths c r ! i)"
    and "fetch_index e c r urls sums i w = (res, w')"
  shows "files w' = files w \<and> commands_run w w' = [] \<and> prefix (logv w) (logv w')"
proof -
  obtain rc1 w1 where d: "fetch_download e (source_paths c r ! i) (urls ! i) w = (rc1, w1)"
    by (cases "fetch_download e (source_paths c r ! i) (urls ! i) w")
  note p1 = fetch_download_present [OF assms(2) d]
  obtain rc2 w2 where v: "fetch_verify e (source_paths c r ! i) sums i w1 = (rc2, w2)"
    by (cases "fetch_verify e (source_paths c r ! i) sums i w1")
  note p2 = fetch_verify_quiet [OF v] and p3 = fetch_verify_log [OF v]
  have w': "w' = w2" using assms(1,3) d v p1 by (simp add: fetch_index_def Let_def)
  have "commands_run w w2 = commands_run w w1 @ commands_run w1 w2"
    using p1 p3 by (intro commands_run_trans) auto
  then show ?thesis using p1 p2 p3 w' by (auto intro: prefix_order.trans)
qed

lemma fetch_loop_present:
  assumes "\<forall>i \<in> set js. i < length (source_paths c r) \<and> fs_exists (files w) (source_paths c r ! i)"
    and "fetch_loop e c r urls sums js w = (res, w')"
  shows "files w' = files w \<and> commands_run w w' = [] \<and> prefix (logv w) (logv w')"
  using assms
proof (induction js arbitrary: w)
  case Nil
  then show ?case by (simp add: commands_run_def)
next
  case (Cons i js)
  obtain r1 w1 where s: "fetch_index e c r urls sums i w = (r1, w1)"
    by (cases "fetch_index e c r urls sums i w")
  from Cons.prems(1) have "i < length (source_paths c r)" "fs_exists (files w) (source_paths c r ! i)"
    by auto
  note p = fetch_index_present [OF this s]
  show ?case
  proof (cases "r1 = Returned 0")
    case True
    with Cons.prems(2) s have l: "fetch_loop e c r urls sums js w1 = (res, w')" by simp
    have "\<forall>i \<in> set js. i < length (source_paths c r) \<and> fs_exists (files w1) (source_paths c r ! i)"
      using Cons.prems(1) p by simp
    note q = Cons.IH [OF this l]
    have "commands_run w w' = commands_run w w1 @ commands_run w1 w'"
      using p q by (intro commands_run_trans) auto
    then show ?thesis using p q by (auto intro: prefix_order.trans)
  next
    case False
    with Cons.prems(2) s have "w' = w1" by (cases r1) (auto split: if_splits)
    with p show ?thesis by simp
  qed
qed

lemma source_paths_length:
  "length (split_list (url r)) \<le> length (source_paths c r)"
  by (simp add: source_paths_def Let_def)

lemma fetch_vcs_none:
  "\<not> starts_with (vcs r) ''git:'' \<Longrightarrow> fetch_vcs e c r w = (0, w)"
  by (simp add: fetch_vcs_def)

lemma cmd_fetch_present:
  assumes ex: "\<forall>p \<in> set (source_paths c r). fs_exists (files w) p"
    and nv: "\<not> starts_with (vcs r) ''git:''"
  shows "commands_run w (snd (cmd_fetch e c r w)) = []
       \<and> (\<forall>p. fs_exists (files w) p \<longrightarrow>
            fs_lookup (files (snd (cmd_fetch e c r w))) p = fs_lookup (files w) p)"
proof -
  obtain t wa where ct: "check_tools e True w = (t, wa)" by (cases "check_tools e True w")
  then have wa: "wa = w" by (rule check_tools_state)
  show ?thesis
  proof (cases t)
    case (Threw m)
    then show ?thesis using ct wa by (simp add: cmd_fetch_def commands_run_def)
  next
    case (Returned u)
    show ?thesis
    proof (cases "fs_create_directories (files w) (sources c)")
      case None
      then show ?thesis using ct wa Returned by (simp add: cmd_fetch_def commands_run_def)
    next
      case (Some fs1)
      let ?w1 = "w\<lparr>files := fs1\<rparr>"
      have keep: "\<And>p. fs_exists (files w) p \<Longrightarrow> fs_lookup fs1 p = fs_lookup (files w) p"
        by (rule fs_create_directories_lookup [OF Some])
      then have ex1: "\<forall>p \<in> set (source_paths c r). fs_exists (files ?w1) p"
        using ex by (simp add: fs_exists_def)
      obtain res w2 where fl: "fetch_loop e c r (split_list (url r)) (split_list (sha256 r))
          [0..<length (split_list (url r))] ?w1 = (res, w2)"
        by (cases "fetch_loop e c r (split_list (url r)) (split_list (sha256 r))
          [0..<length (split_list (url r))] ?w1")
      have "\<forall>i \<in> set [0..<length (split_list (url r))].
              i < length (source_paths c r) \<and> fs_exists (files ?w1) (source_paths c r ! i)"
        using ex1 source_paths_length [of r c] by auto
      note p = fetch_loop_present [OF this fl]
      have c0: "commands_run w w2 = []" using p by (simp add: commands_run_def)
      have f0: "files w2 = fs1" using p by simp
      have "snd (cmd_fetch e c r w) = w2"
        using ct wa Returned Some fl fetch_vcs_none [OF nv]
        by (cases res) (auto simp: cmd_fetch_def Let_def)
      then show ?thesis using c0 f0 keep by simp
    qed
  qed
qed

text \<open>
  Claim C7. For a source index whose derived destination already exists, the loop body of
  \<^verbatim>\<open>cmd_fetch\<close> runs no command at all (so no download) and leaves the file system as it
  was. When every derived destination exists and no git source is declared, a whole run of
  \<^verbatim>\<open>cmd_fetch\<close> runs no command and every path that existed keeps its content: running
  fetch again on unchanged sources changes nothing.
\<close>

theorem fetch_skips_present_sources:
  "(i < length (source_paths c r) \<and> fs_exists (files w) (source_paths c r ! i)
      \<longrightarrow> files (snd (fetch_index e c r urls sums i w)) = files w
         \<and> commands_run w (snd (fetch_index e c r urls sums i w)) = [])
   \<and> ((\<forall>p \<in> set (source_paths c r). fs_exists (files w) p) \<and> \<not> starts_with (vcs r) ''git:''
      \<longrightarrow> commands_run w (snd (cmd_fetch e c r w)) = []
         \<and> (\<forall>p. fs_exists (files w) p \<longrightarrow>
              fs_lookup (files (snd (cmd_fetch e c r w))) p = fs_lookup (files w) p))"
  using fetch_index_present [of i c r w e urls sums, OF _ _ prod.collapse [symmetric]]
        cmd_fetch_present [of c r w e]
  by blast

theorem fetch_skips_present_sources_witness:
  "fst (cmd_fetch env_fail cfg0 rcp_url w_src) = Normal (Returned 0)
   \<and> commands_run w_src (snd (cmd_fetch env_fail cfg0 rcp_url w_src)) = []
   \<and> fs_lookup (files (snd (cmd_fetch env_fail cfg0 rcp_url w_src))) ''cb/src/a.tar.gz''
       = Some (File ''data'')
   \<and> files (snd (fetch_index env_fail cfg0 rcp_url [''http://h/a.tar.gz''] [] 0 w_src)) = files w_src"
proof -
  have sp: "source_paths cfg0 rcp_url = [''cb/src/a.tar.gz'']" by code_simp
  have ex: "fs_exists (files w_src) ''cb/src/a.tar.gz''" by code_simp
  have nv: "\<not> starts_with (vcs rcp_url) ''git:''" by code_simp
  have lk: "fs_lookup (files w_src) ''cb/src/a.tar.gz'' = Some (File ''data'')" by code_simp
  have rc: "fst (cmd_fetch env_fail cfg0 rcp_url w_src) = Normal (Returned 0)" by code_simp
  show ?thesis
    using fetch_skips_present_sources [of 0 cfg0 rcp_url w_src env_fail "[''http://h/a.tar.gz'']" "[]"]
      sp ex nv lk rc
    by simp
qed

text \<open>
  A URL that ends in a slash has the empty file name: its destination is the sources
  directory itself, which exists, so nothing is downloaded for it.
\<close>

lemma fetch_url_with_final_slash:
  "source_paths cfg0 (rcp0\<lparr>url := ''http://h/dir/''\<rparr>) = [''cb/src/'']
   \<and> fst (cmd_fetch env_net cfg0 (rcp0\<lparr>url := ''http://h/dir/''\<rparr>) w_src) = Normal (Returned 0)
   \<and> commands_run w_src (snd (cmd_fetch env_net cfg0 (rcp0\<lparr>url := ''http://h/dir/''\<rparr>) w_src)) = []"
  by code_simp

lemma fetch_loop_append:
  "fetch_loop e c r urls sums (xs @ ys) w =
     (case fetch_loop e c r urls sums xs w of
        (Returned rc, w1) \<Rightarrow> if rc \<noteq> 0 then (Returned rc, w1) else fetch_loop e c r urls sums ys w1
      | (Threw m, w1) \<Rightarrow> (Threw m, w1))"
  by (induction xs arbitrary: w) (auto split: prod.splits outcome.splits)

lemma work_dir_sha256: "work_dir c (r\<lparr>sha256 := s\<rparr>) = work_dir c r"
  by (simp add: work_dir_def)

lemma source_paths_sha256: "source_paths c (r\<lparr>sha256 := s\<rparr>) = source_paths c r"
  by (simp add: source_paths_def Let_def)

lemma cmd_extract_ignores_checksums:
  "cmd_extract e c (r\<lparr>sha256 := s\<rparr>) w = cmd_extract e c r w"
  proof -
  have v: "vcs (r\<lparr>sha256 := s\<rparr>) = vcs r" "name (r\<lparr>sha256 := s\<rparr>) = name r"
    "submodules (r\<lparr>sha256 := s\<rparr>) = submodules r" by simp_all
  show ?thesis
    unfolding cmd_extract_def work_dir_sha256 source_paths_sha256 v ..
qed

lemma fetch_index_mismatch:
  assumes "i < length (source_paths c r)" and "i < length sums" and "sums ! i \<noteq> []"
      and "fetch_download e (source_paths c r ! i) (urls ! i) w = (0, w1)"
      and "sha256_file e (files w1) (source_paths c r ! i) \<noteq> sums ! i"
  shows "fetch_index e c r urls sums i w =
           (Returned 3, log_err (''sha256 diferente: '' @ sha256_file e (files w1) (source_paths c r ! i)
                                   @ '' != '' @ sums ! i) w1)"
  using assms by (simp add: fetch_index_def fetch_verify_def Let_def)

lemma split_list_nonempty:
  "i < length (split_list s) \<Longrightarrow> split_list s ! i \<noteq> []"
proof -
  assume "i < length (split_list s)"
  then have "split_list s ! i \<in> set (split_list s)" by (rule nth_mem)
  then show ?thesis by (simp add: split_list_def)
qed

lemma split_list_positional:
  assumes "i < length (getline_split (CHR '','') s)"
      and "\<forall>j \<le> i. trim (getline_split (CHR '','') s ! j) \<noteq> []"
  shows "i < length (split_list s) \<and> split_list s ! i = trim (getline_split (CHR '','') s ! i)"
proof -
  let ?xs = "map trim (getline_split (CHR '','') s)"
  let ?P = "\<lambda>t::string. t \<noteq> []"
  have len: "i < length ?xs" using assms(1) by simp
  have all: "\<forall>x \<in> set (take (Suc i) ?xs). ?P x"
  proof
    fix x assume "x \<in> set (take (Suc i) ?xs)"
    then obtain j where j: "j < length (take (Suc i) ?xs)" and x: "x = take (Suc i) ?xs ! j"
      by (auto simp: in_set_conv_nth)
    from j have ji: "j \<le> i" and jl: "j < length (getline_split (CHR '','') s)" by simp_all
    from x j jl have "x = trim (getline_split (CHR '','') s ! j)" by simp
    with assms(2) ji show "?P x" by simp
  qed
  have "filter ?P ?xs = filter ?P (take (Suc i) ?xs @ drop (Suc i) ?xs)" by simp
  also have "\<dots> = filter ?P (take (Suc i) ?xs) @ filter ?P (drop (Suc i) ?xs)"
    by (rule filter_append)
  also have "filter ?P (take (Suc i) ?xs) = take (Suc i) ?xs"
    using all by (simp add: filter_id_conv)
  finally have eq: "split_list s = take (Suc i) ?xs @ filter ?P (drop (Suc i) ?xs)"
    by (simp add: split_list_def)
  have lt: "i < length (take (Suc i) ?xs)" using len by simp
  have "split_list s ! i = take (Suc i) ?xs ! i"
    unfolding eq using lt by (simp only: nth_append if_True)
  also have "\<dots> = trim (getline_split (CHR '','') s ! i)" using assms(1) by simp
  finally have v: "split_list s ! i = trim (getline_split (CHR '','') s ! i)" .
  have "i < length (split_list s)" unfolding eq using lt by simp
  then show ?thesis using v by (rule conjI)
qed

text \<open>
  \<^verbatim>\<open>split_list\<close> drops empty items, so a checksum written behind an empty item moves to
  the front: the second item is read as the checksum of the first source.
\<close>

lemma split_list_drops_empty_items: "split_list '',ffff'' = [''ffff'']"
  by code_simp

text \<open>
  Claim C3, as the code has it by design. Take a source index \<open>i\<close> whose checksum item is
  declared and neither it nor an item before it is empty (so that the \<open>i\<close>-th checksum is
  the one \<^verbatim>\<open>cmd_fetch\<close> sets against the \<open>i\<close>-th source). When the loop of \<^verbatim>\<open>cmd_fetch\<close>
  reaches \<open>i\<close> (the indexes before it passed), the artifact of \<open>i\<close> is there (downloaded
  now or found) and its digest differs from the declared checksum, then the check of
  index \<open>i\<close> fails (the loop body leaves with status 3) and fetch stops at once and
  without success: it writes the error line naming both digests, runs no further command
  and leaves the file system as it was, so the artifact stays in the sources directory.
  Fetch itself never unpacks; and \<^verbatim>\<open>cmd_extract\<close> does not read the declared checksums: its
  result is the same whatever they are.
\<close>

theorem fetch_checksum_mismatch_stops_fetch:
  assumes ct: "check_tools e True w = (Returned (), wa)"
      and cd: "fs_create_directories (files wa) (sources c) = Some fs1"
      and iu: "i < length (split_list (url r))"
      and isum: "i < length (getline_split (CHR '','') (sha256 r))"
      and full: "\<forall>j \<le> i. trim (getline_split (CHR '','') (sha256 r) ! j) \<noteq> []"
      and before: "fetch_loop e c r (split_list (url r)) (split_list (sha256 r)) [0..<i]
                     (wa\<lparr>files := fs1\<rparr>) = (Returned 0, w0)"
      and dl: "fetch_download e (source_paths c r ! i) (split_list (url r) ! i) w0 = (0, w1)"
      and ne: "sha256_file e (files w1) (source_paths c r ! i)
                 \<noteq> trim (getline_split (CHR '','') (sha256 r) ! i)"
  shows "fst (fetch_index e c r (split_list (url r)) (split_list (sha256 r)) i w0) = Returned 3
       \<and> fst (cmd_fetch e c r w) \<noteq> Normal (Returned 0)
       \<and> files (snd (cmd_fetch e c r w)) = files w1
       \<and> logv (snd (cmd_fetch e c r w)) =
           logv w1 @ [''[ERR ]: sha256 diferente: '' @ sha256_file e (files w1) (source_paths c r ! i)
                        @ '' != '' @ trim (getline_split (CHR '','') (sha256 r) ! i)]
       \<and> commands_run w1 (snd (cmd_fetch e c r w)) = []
       \<and> (\<forall>s w'. cmd_extract e c (r\<lparr>sha256 := s\<rparr>) w' = cmd_extract e c r w')"
proof -
  let ?urls = "split_list (url r)" and ?sums = "split_list (sha256 r)"
  let ?w3 = "log_err (''sha256 diferente: '' @ sha256_file e (files w1) (source_paths c r ! i)
                                   @ '' != '' @ ?sums ! i) w1"
  note pos = split_list_positional [OF isum full]
  from pos have isum': "i < length ?sums" by (rule conjunct1)
  from pos have val: "?sums ! i = trim (getline_split (CHR '','') (sha256 r) ! i)" by (rule conjunct2)
  from ne val have ne': "sha256_file e (files w1) (source_paths c r ! i) \<noteq> ?sums ! i" by simp
  have il: "i < length (source_paths c r)"
    using iu source_paths_length [of r c] by simp
  have fi: "fetch_index e c r ?urls ?sums i w0 = (Returned 3, ?w3)"
    by (rule fetch_index_mismatch [OF il isum' split_list_nonempty [OF isum'] dl ne'])
  have idx: "[0..<length ?urls] = [0..<i] @ i # [Suc i..<length ?urls]"
  proof -
    have "[0..<i + (length ?urls - i)] = [0..<i] @ [i..<i + (length ?urls - i)]"
      by (rule upt_add_eq_append) simp
    moreover have "i + (length ?urls - i) = length ?urls" using iu by simp
    ultimately have "[0..<length ?urls] = [0..<i] @ [i..<length ?urls]" by simp
    then show ?thesis using iu by (simp add: upt_conv_Cons)
  qed
  have "fetch_loop e c r ?urls ?sums [0..<length ?urls] (wa\<lparr>files := fs1\<rparr>) = (Returned 3, ?w3)"
    unfolding idx using before fi by (simp add: fetch_loop_append)
  then have "cmd_fetch e c r w = (Terminated, ?w3)"
    using ct cd by (simp add: cmd_fetch_def Let_def)
  then show ?thesis
    using fi
    by (simp add: val cmd_extract_ignores_checksums log_err_def log_write_def commands_run_def)
qed

theorem fetch_checksum_mismatch_stops_fetch_witness:
  "fst (cmd_fetch env_net cfg0 rcp_bad (w_init [])) \<noteq> Normal (Returned 0)
   \<and> fs_lookup (files (snd (cmd_fetch env_net cfg0 rcp_bad (w_init [])))) ''cb/src/a.tar.gz''
       = Some (File ''corrupt'')
   \<and> last (logv (snd (cmd_fetch env_net cfg0 rcp_bad (w_init []))))
       = ''[ERR ]: sha256 diferente: ab12 != ab13''"
proof -
  let ?wa = "w_init []"
  let ?fs1 = "[(''cb'', Dir), (''cb/src'', Dir)]"
  let ?w0 = "?wa\<lparr>files := ?fs1\<rparr>"
  let ?w1 = "snd (fetch_download env_net (source_paths cfg0 rcp_bad ! 0) (split_list (url rcp_bad) ! 0) ?w0)"
  have ct: "check_tools env_net True (w_init []) = (Returned (), ?wa)" by code_simp
  have cd: "fs_create_directories (files ?wa) (sources cfg0) = Some ?fs1" by code_simp
  have iu: "0 < length (split_list (url rcp_bad))" by code_simp
  have isum: "0 < length (getline_split (CHR '','') (sha256 rcp_bad))" by code_simp
  have "trim (getline_split (CHR '','') (sha256 rcp_bad) ! 0) \<noteq> []" by code_simp
  then have full: "\<forall>j \<le> 0. trim (getline_split (CHR '','') (sha256 rcp_bad) ! j) \<noteq> []" by simp
  have before: "fetch_loop env_net cfg0 rcp_bad (split_list (url rcp_bad)) (split_list (sha256 rcp_bad))
                  [0..<0] ?w0 = (Returned 0, ?w0)" by simp
  have "fst (fetch_download env_net (source_paths cfg0 rcp_bad ! 0) (split_list (url rcp_bad) ! 0) ?w0) = 0"
    by code_simp
  then have dl: "fetch_download env_net (source_paths cfg0 rcp_bad ! 0) (split_list (url rcp_bad) ! 0) ?w0
      = (0, ?w1)"
    by (simp add: prod_eq_iff)
  have ne: "sha256_file env_net (files ?w1) (source_paths cfg0 rcp_bad ! 0)
              \<noteq> trim (getline_split (CHR '','') (sha256 rcp_bad) ! 0)"
    by code_simp
  have lk: "fs_lookup (files ?w1) ''cb/src/a.tar.gz'' = Some (File ''corrupt'')" by code_simp
  have got: "sha256_file env_net (files ?w1) (source_paths cfg0 rcp_bad ! 0) = ''ab12''" by code_simp
  have decl: "trim (getline_split (CHR '','') (sha256 rcp_bad) ! 0) = ''ab13''" by code_simp
  note t = fetch_checksum_mismatch_stops_fetch [OF ct cd iu isum full before dl ne]
  from t have a: "fst (cmd_fetch env_net cfg0 rcp_bad (w_init [])) \<noteq> Normal (Returned 0)"
    by (rule conjunct2 [THEN conjunct1])
  from t have "files (snd (cmd_fetch env_net cfg0 rcp_bad (w_init []))) = files ?w1"
    by (rule conjunct2 [THEN conjunct2, THEN conjunct1])
  with lk have b: "fs_lookup (files (snd (cmd_fetch env_net cfg0 rcp_bad (w_init [])))) ''cb/src/a.tar.gz''
       = Some (File ''corrupt'')" by simp
  from t have "logv (snd (cmd_fetch env_net cfg0 rcp_bad (w_init []))) =
           logv ?w1 @ [''[ERR ]: sha256 diferente: '' @ sha256_file env_net (files ?w1) (source_paths cfg0 rcp_bad ! 0)
                        @ '' != '' @ trim (getline_split (CHR '','') (sha256 rcp_bad) ! 0)]"
    by (rule conjunct2 [THEN conjunct2, THEN conjunct2, THEN conjunct1])
  then have c: "last (logv (snd (cmd_fetch env_net cfg0 rcp_bad (w_init []))))
       = ''[ERR ]: sha256 diferente: ab12 != ab13''"
    unfolding got decl by simp
  from a b c show ?thesis by blast
qed

text \<open>
  Claim C3 as stated fails: nothing keeps a later \<^verbatim>\<open>extract\<close> from unpacking the
  artifact. Here fetch downloads the artifact, finds the digest different, writes the
  error line and does not succeed; the extract run that follows returns 0 and its only
  command unpacks that artifact.
\<close>

theorem extraction_runs_after_mismatch:
  "fst (cmd_fetch env_net cfg0 rcp_bad (w_init [])) \<noteq> Normal (Returned 0)
   \<and> last (logv (snd (cmd_fetch env_net cfg0 rcp_bad (w_init []))))
       = ''[ERR ]: sha256 diferente: ab12 != ab13''
   \<and> fst (cmd_extract env_net cfg0 rcp_bad (snd (cmd_fetch env_net cfg0 rcp_bad (w_init []))))
       = Normal (Returned 0)
   \<and> commands_run (snd (cmd_fetch env_net cfg0 rcp_bad (w_init [])))
       (snd (cmd_extract env_net cfg0 rcp_bad (snd (cmd_fetch env_net cfg0 rcp_bad (w_init [])))))
     = [tar_strip_cmd ''-xzf'' ''cb/src/a.tar.gz'' ''cb/wk/p-1'']"
  by code_simp

subsection \<open>Checksum comparison\<close>

lemma last_dropWhile_keep:
  "dropWhile P xs \<noteq> [] \<Longrightarrow> last (dropWhile P xs) = last xs"
  by (induction xs) (auto split: if_splits)

lemma trim_ends:
  assumes "trim s \<noteq> []"
  shows "\<not> is_trim_ws (hd (trim s)) \<and> \<not> is_trim_ws (last (trim s))"
proof -
  let ?u = "dropWhile is_trim_ws s"
  let ?v = "dropWhile is_trim_ws (rev ?u)"
  have t: "trim s = rev ?v" by (simp add: trim_def)
  with assms have v: "?v \<noteq> []" by simp
  then have l: "\<not> is_trim_ws (hd ?v)" by (rule hd_dropWhile)
  have u: "?u \<noteq> []"
  proof
    assume "?u = []"
    then have "?v = []" by (simp only: rev.simps dropWhile.simps)
    with v show False by (rule notE)
  qed
  then have hu: "\<not> is_trim_ws (hd ?u)" by (rule hd_dropWhile)
  have "last ?v = last (rev ?u)"
    using v by (rule last_dropWhile_keep)
  also have "\<dots> = hd ?u" using u by (simp add: last_rev)
  finally have "hd (rev ?v) = hd ?u" using v by (simp add: hd_rev)
  moreover have "last (rev ?v) = hd ?v" using v by (simp add: last_rev)
  ultimately show ?thesis using t l hu by simp
qed

lemma split_list_trimmed:
  assumes "i < length (split_list s)"
  shows "split_list s ! i \<noteq> [] \<and> \<not> is_trim_ws (hd (split_list s ! i))
         \<and> \<not> is_trim_ws (last (split_list s ! i))"
proof -
  from assms have "split_list s ! i \<in> set (split_list s)" by (rule nth_mem)
  then obtain item where "split_list s ! i = trim item" "trim item \<noteq> []"
    by (auto simp: split_list_def)
  then show ?thesis using trim_ends [of item] by simp
qed

lemma sha256_file_no_space: "\<forall>ch \<in> set (sha256_file e fs p). \<not> isspace ch"
  by (simp add: sha256_file_def erase_spaces_def)

lemma upper_not_lower: "list_all (\<lambda>ch. ch \<notin> set ''0123456789abcdef'') ''ABCDEF''"
  by code_simp

lemma upper_never_equal_lower:
  assumes "lower_hex got" and "has_upper_hex declared"
  shows "got \<noteq> declared"
proof
  assume eq: "got = declared"
  from assms(2) obtain ch where ch: "ch \<in> set declared" "ch \<in> set ''ABCDEF''"
    unfolding has_upper_hex_def list_ex_iff by blast
  from ch(1) eq assms(1) have "ch \<in> set ''0123456789abcdef''"
    unfolding lower_hex_def list_all_iff by blast
  moreover from ch(2) upper_not_lower have "ch \<notin> set ''0123456789abcdef''"
    unfolding list_all_iff by blast
  ultimately show False by (rule notE [rotated])
qed

text \<open>
  Claim C10. With the artifact of index \<open>i\<close> in place and a checksum declared for \<open>i\<close>, the
  loop body passes exactly when the computed digest and the declared checksum are the same
  string; the digest has had every white-space character erased, the declared checksum is
  trimmed at both ends. Hence a declared checksum with an upper-case hexadecimal digit, set
  against the lower-case digest the tool prints, always ends in status 3, also when the two
  denote the same value.
\<close>

theorem checksum_comparison_is_exact:
  assumes il: "i < length (source_paths c r)"
      and isum: "i < length (split_list (sha256 r))"
      and dl: "fetch_download e (source_paths c r ! i) (urls ! i) w = (0, w1)"
  shows "fst (fetch_index e c r urls (split_list (sha256 r)) i w) =
           (if sha256_file e (files w1) (source_paths c r ! i) = split_list (sha256 r) ! i
            then Returned 0 else Returned 3)
       \<and> (\<forall>ch \<in> set (sha256_file e (files w1) (source_paths c r ! i)). \<not> isspace ch)
       \<and> \<not> is_trim_ws (hd (split_list (sha256 r) ! i))
       \<and> \<not> is_trim_ws (last (split_list (sha256 r) ! i))
       \<and> (lower_hex (sha256_file e (files w1) (source_paths c r ! i))
            \<and> has_upper_hex (split_list (sha256 r) ! i)
          \<longrightarrow> fst (fetch_index e c r urls (split_list (sha256 r)) i w) = Returned 3)"
proof -
  note tr = split_list_trimmed [OF isum]
  have res: "fst (fetch_index e c r urls (split_list (sha256 r)) i w) =
           (if sha256_file e (files w1) (source_paths c r ! i) = split_list (sha256 r) ! i
            then Returned 0 else Returned 3)"
    using il isum dl tr by (simp add: fetch_index_def fetch_verify_def Let_def)
  have up: "lower_hex (sha256_file e (files w1) (source_paths c r ! i))
            \<and> has_upper_hex (split_list (sha256 r) ! i)
          \<longrightarrow> fst (fetch_index e c r urls (split_list (sha256 r)) i w) = Returned 3"
    using res upper_never_equal_lower [of "sha256_file e (files w1) (source_paths c r ! i)"
                                  "split_list (sha256 r) ! i"]
    by simp
  show ?thesis
    using res tr up sha256_file_no_space [of e "files w1" "source_paths c r ! i"]
    by blast
qed

theorem checksum_comparison_is_exact_witness:
  "split_list (sha256 rcp_upper) ! 0 = ''AB12''
   \<and> sha256_file env_net (files w_src) ''cb/src/a.tar.gz'' = ''ab12''
   \<and> fst (fetch_index env_net cfg0 rcp_upper [''http://h/a.tar.gz''] (split_list (sha256 rcp_upper)) 0 w_src)
       = Returned 3"
proof -
  have sp: "source_paths cfg0 rcp_upper ! 0 = ''cb/src/a.tar.gz''" by code_simp
  have il: "0 < length (source_paths cfg0 rcp_upper)" by code_simp
  have isum: "0 < length (split_list (sha256 rcp_upper))" by code_simp
  have "fst (fetch_download env_net (source_paths cfg0 rcp_upper ! 0) ([''http://h/a.tar.gz''] ! 0) w_src) = 0"
    by code_simp
  then have dl: "fetch_download env_net (source_paths cfg0 rcp_upper ! 0) ([''http://h/a.tar.gz''] ! 0) w_src
     = (0, snd (fetch_download env_net (source_paths cfg0 rcp_upper ! 0) ([''http://h/a.tar.gz''] ! 0) w_src))"
    by (simp add: prod_eq_iff)
  have f: "files (snd (fetch_download env_net ''cb/src/a.tar.gz''
              ([''http://h/a.tar.gz''] ! 0) w_src)) = files w_src"
    by code_simp
  have d: "split_list (sha256 rcp_upper) ! 0 = ''AB12''" by code_simp
  have g: "sha256_file env_net (files w_src) ''cb/src/a.tar.gz'' = ''ab12''" by code_simp
  have lo: "lower_hex ''ab12''" by code_simp
  have up: "has_upper_hex ''AB12''" by code_simp
  from checksum_comparison_is_exact [OF il isum dl] lo up
  have "fst (fetch_index env_net cfg0 rcp_upper [''http://h/a.tar.gz''] (split_list (sha256 rcp_upper)) 0 w_src)
       = Returned 3"
    unfolding sp f d g by simp
  with d g show ?thesis by simp
qed

subsection \<open>Which commands a step can run\<close>

lemma runs_only_same: "logv w' = logv w \<Longrightarrow> runs_only X w w'"
  by (simp add: runs_only_def commands_run_def)

lemma runs_only_trans:
  assumes "runs_only X w w1" and "runs_only X w1 w2"
  shows "runs_only X w w2"
proof -
  from assms have p: "prefix (logv w) (logv w1)" "prefix (logv w1) (logv w2)"
    by (simp_all add: runs_only_def)
  from commands_run_trans [OF p] assms p show ?thesis
    by (auto simp: runs_only_def intro: prefix_order.trans)
qed

lemma runs_only_mono: "runs_only X w w' \<Longrightarrow> X \<subseteq> Y \<Longrightarrow> runs_only Y w w'"
  by (auto simp: runs_only_def)

lemma runs_only_left: "logv w0 = logv w \<Longrightarrow> runs_only X w0 w' \<Longrightarrow> runs_only X w w'"
  by (simp add: runs_only_def commands_run_def)

lemma runs_only_line:
  assumes "\<not> prefix ''[INFO]: $ '' (level @ '': '' @ msg)"
  shows "runs_only X w (log_write level msg w)"
  using assms by (simp add: runs_only_def commands_run_def log_write_def)

lemma runs_only_ok: "runs_only X w (log_ok msg w)"
  unfolding log_ok_def by (rule runs_only_line) simp

lemma runs_only_err: "runs_only X w (log_err msg w)"
  unfolding log_err_def by (rule runs_only_line) simp

lemma runs_only_warn: "runs_only X w (log_warn msg w)"
  unfolding log_warn_def by (rule runs_only_line) simp

lemma runs_only_exec:
  assumes "exec_cmd e cmd w = (rc, w')" and "cmd \<in> X"
  shows "runs_only X w w'"
  using commands_run_exec [OF assms(1)] exec_cmd_log_mono [OF assms(1)] assms(2)
  by (simp add: runs_only_def)

lemma runs_only_exec_strict:
  assumes "exec_cmd_strict e cmd ctx w = (res, w')" and "cmd \<in> X"
  shows "runs_only X w w'"
proof -
  obtain rc w1 where x: "exec_cmd e cmd w = (rc, w1)" by (cases "exec_cmd e cmd w")
  with assms(1) have "w' = w1" by (auto simp: exec_cmd_strict_def split: if_splits)
  with runs_only_exec [OF x assms(2)] show ?thesis by simp
qed

lemma make_snapshot_runs:
  assumes "make_snapshot e dest snap w = (res, w')"
  shows "runs_only {snapshot_zstd_cmd dest snap, snapshot_gzip_cmd dest snap} w w'"
proof (cases "fs_create_directories (files w) (parent_path snap)")
  case None
  with assms show ?thesis by (simp add: make_snapshot_def runs_only_same)
next
  case (Some fs1)
  let ?w1 = "w\<lparr>files := fs1\<rparr>"
  have l: "logv ?w1 = logv w" by simp
  show ?thesis
  proof (cases "fs_exists fs1 dest \<and> \<not> fs_is_empty fs1 dest")
    case False
    with assms Some show ?thesis by (auto simp: make_snapshot_def Let_def runs_only_same)
  next
    case True
    with assms Some have
      "exec_cmd_strict e (if has_tool e ''zstd'' then snapshot_zstd_cmd dest snap
                          else snapshot_gzip_cmd dest snap)
         (if has_tool e ''zstd'' then ''snapshot zstd'' else ''snapshot gzip'') ?w1 = (res, w')"
      by (auto simp: make_snapshot_def Let_def)
    from runs_only_exec_strict [OF this, of "{snapshot_zstd_cmd dest snap, snapshot_gzip_cmd dest snap}"]
    have "runs_only {snapshot_zstd_cmd dest snap, snapshot_gzip_cmd dest snap} ?w1 w'" by simp
    then show ?thesis by (rule runs_only_left [OF l])
  qed
qed

lemma restore_snapshot_runs:
  assumes "restore_snapshot e dest snap w = (res, w')"
  shows "runs_only {restore_zstd_cmd dest snap, restore_gzip_cmd dest snap} w w'"
proof (cases "\<not> fs_exists (files w) snap \<and> \<not> fs_exists (files w) (snapshot_alt snap)")
  case True
  with assms show ?thesis by (auto simp: restore_snapshot_def runs_only_same)
next
  case False
  let ?X = "{restore_zstd_cmd dest snap, restore_gzip_cmd dest snap}"
  obtain del w0 where rm: "fs_remove_all e dest w = (del, w0)" by (cases "fs_remove_all e dest w")
  have l0: "logv w0 = logv w" by (rule fs_remove_all_log [OF rm])
  show ?thesis
  proof (cases del)
    case (Threw m)
    with assms False rm have "w' = w0" by (auto simp: restore_snapshot_def)
    with l0 show ?thesis by (simp add: runs_only_same)
  next
    case (Returned u)
    show ?thesis
    proof (cases "fs_create_directories (files w0) dest")
      case None
      with assms False rm Returned have "w' = w0" by (auto simp: restore_snapshot_def)
      with l0 show ?thesis by (simp add: runs_only_same)
    next
      case (Some fs1)
      let ?w1 = "w0\<lparr>files := fs1\<rparr>"
      have l: "logv ?w1 = logv w" using l0 by simp
      consider (z) "has_tool e ''zstd'' \<and> fs_exists fs1 snap"
        | (g) "\<not> (has_tool e ''zstd'' \<and> fs_exists fs1 snap)" "fs_exists fs1 (replace_extension snap ''.tar.gz'')"
        | (n) "\<not> (has_tool e ''zstd'' \<and> fs_exists fs1 snap)" "\<not> fs_exists fs1 (replace_extension snap ''.tar.gz'')"
        by blast
      then have "runs_only ?X ?w1 w'"
      proof cases
        case z
        with assms False rm Returned Some
        have "exec_cmd_strict e (restore_zstd_cmd dest snap) ''restore zstd'' ?w1 = (res, w')"
          by (auto simp: restore_snapshot_def Let_def)
        then show ?thesis by (rule runs_only_exec_strict) simp
      next
        case g
        with assms False rm Returned Some
        have "exec_cmd_strict e (restore_gzip_cmd dest snap) ''restore gzip'' ?w1 = (res, w')"
          by (auto simp: restore_snapshot_def Let_def)
        then show ?thesis by (rule runs_only_exec_strict) simp
      next
        case n
        with assms False rm Returned Some have "w' = ?w1" by (auto simp: restore_snapshot_def Let_def)
        then show ?thesis by (simp add: runs_only_same)
      qed
      then show ?thesis by (rule runs_only_left [OF l])
    qed
  qed
qed

lemma strip_loop_runs:
  "strip_loop e ps rc w = (rc', w') \<Longrightarrow> runs_only (range strip_cmd) w w'"
proof (induction ps arbitrary: rc w)
  case Nil
  then show ?case by (simp add: runs_only_same)
next
  case (Cons p ps)
  show ?case
  proof (cases "fs_is_regular_file (files w) p \<and> is_elf (files w) p")
    case False
    with Cons show ?thesis by auto
  next
    case True
    obtain code w1 where x: "exec_cmd e (strip_cmd p) w = (code, w1)"
      by (cases "exec_cmd e (strip_cmd p) w")
    with True Cons.prems have "strip_loop e ps (or rc code) w1 = (rc', w')" by simp
    then have "runs_only (range strip_cmd) w1 w'" by (rule Cons.IH)
    moreover have "runs_only (range strip_cmd) w w1" by (rule runs_only_exec [OF x]) simp
    ultimately show ?thesis by (rule runs_only_trans [rotated])
  qed
qed

lemma collect_manifest_log: "logv (snd (collect_manifest dest manifest w)) = logv w"
  by (simp add: collect_manifest_def split: option.splits)

lemma strip_binaries_runs: "runs_only (range strip_cmd) w (snd (strip_binaries e dest w))"
proof (cases "fs_is_directory (files w) dest")
  case False
  then show ?thesis by (simp add: strip_binaries_def runs_only_same)
next
  case True
  obtain rc w' where l: "strip_loop e (fs_recursive_list (files w) dest) 0 w = (rc, w')"
    by (cases "strip_loop e (fs_recursive_list (files w) dest) 0 w")
  with True strip_loop_runs [OF l] show ?thesis by (simp add: strip_binaries_def)
qed

lemma run_step_runs:
  assumes "run_step e label wd cmd w = (rc, w')" and "label = ''postinstall''"
  shows "runs_only {step_cmd wd cmd} w w'"
proof (cases "cmd = []")
  case True
  with assms have "w' = log_info (''postinstall: (vazio)'') w" by (simp add: run_step_def)
  then show ?thesis unfolding log_info_def by (simp add: runs_only_line)
next
  case False
  with assms have "exec_cmd e (step_cmd wd cmd) w = (rc, w')" by (simp add: run_step_def)
  then show ?thesis by (rule runs_only_exec) simp
qed

subsection \<open>Install\<close>

lemma cmd_install_tail:
  assumes rm: "fs_remove_all e (destdir_pkg c r) w = (Returned (), w0)"
      and mk: "fs_create_directories (files w0) (destdir_pkg c r) = Some fs1"
      and ms: "make_snapshot e (destdir_pkg c r) (snapshot_tar c r) (w0\<lparr>files := fs1\<rparr>) = (Returned (), w2)"
      and hook: "exec_cmd e (install_cmd e c r) w2 = (rc, w3)"
  shows "runs_only (install_tail_cmds c r) w3 (snd (cmd_install e c r w))"
proof (cases "rc = 0")
  case False
  let ?w3' = "log_err install_failed_msg w3"
  obtain res w4 where rs: "restore_snapshot e (destdir_pkg c r) (snapshot_tar c r) ?w3' = (res, w4)"
    by (cases "restore_snapshot e (destdir_pkg c r) (snapshot_tar c r) ?w3'")
  have "snd (cmd_install e c r w) = w4"
    using rm mk ms hook False rs by (cases res) (simp_all add: cmd_install_def Let_def)
  moreover have "runs_only (install_tail_cmds c r) w3 ?w3'" by (rule runs_only_err)
  moreover have "runs_only (install_tail_cmds c r) ?w3' w4"
    by (rule runs_only_mono [OF restore_snapshot_runs [OF rs]]) (simp add: install_tail_cmds_def)
  ultimately show ?thesis by (auto intro: runs_only_trans)
next
  case True
  let ?X = "install_tail_cmds c r"
  obtain r4 w4 where st: "(if strip r then strip_binaries e (destdir_pkg c r) w3 else (Returned 0, w3)) = (r4, w4)"
    by (cases "if strip r then strip_binaries e (destdir_pkg c r) w3 else (Returned 0, w3)")
  obtain r5 w5 where cm: "collect_manifest (destdir_pkg c r) (install_manifest c r) w4 = (r5, w5)"
    by (cases "collect_manifest (destdir_pkg c r) (install_manifest c r) w4")
  obtain rc6 w6 where rs: "run_step e ''postinstall'' (work_dir c r) (postinstall r) w5 = (rc6, w6)"
    by (cases "run_step e ''postinstall'' (work_dir c r) (postinstall r) w5")
  have a: "runs_only ?X w3 w4"
  proof (cases "strip r")
    case False
    with st show ?thesis by (simp add: runs_only_same)
  next
    case True
    with st have "w4 = snd (strip_binaries e (destdir_pkg c r) w3)" by simp
    with strip_binaries_runs [of w3 e "destdir_pkg c r"]
    have "runs_only (range strip_cmd) w3 w4" by simp
    then show ?thesis by (rule runs_only_mono) (auto simp: install_tail_cmds_def)
  qed
  have "logv w5 = logv w4" using collect_manifest_log [of "destdir_pkg c r" "install_manifest c r" w4] cm
    by simp
  then have b: "runs_only ?X w4 w5" by (rule runs_only_same)
  have c: "runs_only ?X w5 w6"
    by (rule runs_only_mono [OF run_step_runs [OF rs refl]]) (simp add: install_tail_cmds_def)
  have d: "runs_only ?X w6 (log_ok (''Instalado em DESTDIR: '' @ destdir_pkg c r) w6)"
    by (rule runs_only_ok)
  have "snd (cmd_install e c r w) \<in> {w4, w5, w6, log_ok (''Instalado em DESTDIR: '' @ destdir_pkg c r) w6}"
    using rm mk ms hook True st cm rs
    by (cases r4; cases r5) (simp_all add: cmd_install_def Let_def)
  moreover have "runs_only ?X w3 w5" using a b by (rule runs_only_trans)
  moreover have "runs_only ?X w3 w6" using a b c by (blast intro: runs_only_trans)
  ultimately show ?thesis using a d by (auto intro: runs_only_trans)
qed

lemma cmd_install_snapshot_threw:
  assumes "fs_remove_all e (destdir_pkg c r) w = (Returned (), w0)"
      and "fs_create_directories (files w0) (destdir_pkg c r) = Some fs1"
      and "make_snapshot e (destdir_pkg c r) (snapshot_tar c r) (w0\<lparr>files := fs1\<rparr>) = (Threw m, w2)"
  shows "cmd_install e c r w = (Threw m, w2)"
  using assms by (simp add: cmd_install_def Let_def)

lemma commands_run_first:
  assumes "logv w1 = logv w" and "exec_cmd e cmd w1 = (rc, w2)" and "prefix (logv w2) (logv w')"
  shows "commands_run w w' \<noteq> [] \<and> hd (commands_run w w') = cmd"
proof -
  have "commands_run w w2 = [cmd]"
    using commands_run_exec [OF assms(2)] assms(1) by (simp add: commands_run_def)
  moreover have "prefix (logv w) (logv w2)"
    using exec_cmd_log_mono [OF assms(2)] assms(1) by simp
  ultimately show ?thesis
    using commands_run_trans [OF _ assms(3), of w] by simp
qed

lemma make_snapshot_skips_empty_root:
  assumes "fs_create_directories (files w) (parent_path snap) = Some fs1"
      and "\<not> fs_exists fs1 dest \<or> fs_is_empty fs1 dest"
  shows "make_snapshot e dest snap w = (Returned (), w\<lparr>files := fs1\<rparr>)"
  using assms by (auto simp: make_snapshot_def Let_def)

text \<open>
  Claim C2 against the code. The root holds the file \<open>old\<close> of an earlier install; the
  archiver of this environment writes the archive whenever it is run, and a remove over
  this root does write it. An install over the same root, whose hook succeeds, runs the
  hook as its only command: \<^verbatim>\<open>cmd_install\<close> has wiped the root
  (\<^verbatim>\<open>fs::remove_all(dest); fs::create_directories(dest);\<close>) in front of the call of
  \<^verbatim>\<open>make_snapshot\<close> that its comment announces as the snapshot for the rollback, so
  \<^verbatim>\<open>make_snapshot\<close> finds an empty root and archives nothing. After the install \<open>old\<close> is
  gone and there is no archive under either name: the content the root had before the
  install has been archived nowhere.
\<close>

theorem install_archives_nothing:
  "fs_lookup (files w_old) ''cb/dd/p-1/old'' = Some (File ''v1'')
   \<and> fs_lookup (files (snd (cmd_remove env_arch cfg0 rcp_true w_old))) (snapshot_tar cfg0 rcp_true)
       = Some (File ''old=v1'')
   \<and> fst (cmd_install env_arch cfg0 rcp_true w_old) = Returned 0
   \<and> commands_run w_old (snd (cmd_install env_arch cfg0 rcp_true w_old)) = [install_cmd env_arch cfg0 rcp_true]
   \<and> fs_lookup (files (snd (cmd_install env_arch cfg0 rcp_true w_old))) ''cb/dd/p-1/old'' = None
   \<and> \<not> fs_exists (files (snd (cmd_install env_arch cfg0 rcp_true w_old))) (snapshot_tar cfg0 rcp_true)
   \<and> \<not> fs_exists (files (snd (cmd_install env_arch cfg0 rcp_true w_old)))
         (replace_extension (snapshot_tar cfg0 rcp_true) ''.tar.gz'')"
  by code_simp

text \<open>
  Claim C1 against the code. The root holds the file \<open>old\<close> of an earlier install and no
  snapshot archive exists. The install hook writes \<open>partial\<close> and exits with status 2.
  \<^verbatim>\<open>cmd_install\<close> reports 2, but the root is not what it was before the install, nor
  empty: \<open>old\<close> is gone (the root was wiped before the snapshot step, which therefore
  archived nothing), \<open>partial\<close> is still there (\<^verbatim>\<open>restore_snapshot\<close> returns at once when it
  finds no archive), and the hook is the only command that was run.
\<close>

theorem install_failure_not_rolled_back:
  "fst (cmd_install env_arch cfg0 rcp0 w_old) = Returned 2
   \<and> fs_lookup (files w_old) ''cb/dd/p-1/old'' = Some (File ''v1'')
   \<and> fs_lookup (files (snd (cmd_install env_arch cfg0 rcp0 w_old))) ''cb/dd/p-1/old'' = None
   \<and> fs_lookup (files (snd (cmd_install env_arch cfg0 rcp0 w_old))) ''cb/dd/p-1/partial''
       = Some (File ''x'')
   \<and> commands_run w_old (snd (cmd_install env_arch cfg0 rcp0 w_old)) = [install_cmd env_arch cfg0 rcp0]"
  by code_simp

lemma cmd_install_runs:
  "runs_only ({snapshot_zstd_cmd (destdir_pkg c r) (snapshot_tar c r),
               snapshot_gzip_cmd (destdir_pkg c r) (snapshot_tar c r),
               install_cmd e c r} \<union> install_tail_cmds c r) w (snd (cmd_install e c r w))"
  (is "runs_only ?X w _")
proof -
  obtain del w0 where rm: "fs_remove_all e (destdir_pkg c r) w = (del, w0)"
    by (cases "fs_remove_all e (destdir_pkg c r) w")
  have l0: "logv w0 = logv w" by (rule fs_remove_all_log [OF rm])
  show ?thesis
  proof (cases del)
    case (Threw m)
    with rm have "snd (cmd_install e c r w) = w0" by (simp add: cmd_install_def Let_def)
    with l0 show ?thesis by (simp add: runs_only_same)
  next
    case (Returned u)
    with rm have rm': "fs_remove_all e (destdir_pkg c r) w = (Returned (), w0)" by simp
    show ?thesis
    proof (cases "fs_create_directories (files w0) (destdir_pkg c r)")
      case None
      with rm' have "snd (cmd_install e c r w) = w0" by (simp add: cmd_install_def Let_def)
      with l0 show ?thesis by (simp add: runs_only_same)
    next
      case (Some fs1)
      obtain res w2 where ms: "make_snapshot e (destdir_pkg c r) (snapshot_tar c r) (w0\<lparr>files := fs1\<rparr>) = (res, w2)"
        by (cases "make_snapshot e (destdir_pkg c r) (snapshot_tar c r) (w0\<lparr>files := fs1\<rparr>)")
      have "runs_only ?X (w0\<lparr>files := fs1\<rparr>) w2"
        by (rule runs_only_mono [OF make_snapshot_runs [OF ms]]) simp
      then have a: "runs_only ?X w w2" by (rule runs_only_left [rotated]) (simp add: l0)
      show ?thesis
      proof (cases res)
        case (Threw m)
        with cmd_install_snapshot_threw [OF rm' Some] ms a show ?thesis by simp
      next
        case (Returned u)
        obtain rc w3 where hook: "exec_cmd e (install_cmd e c r) w2 = (rc, w3)"
          by (cases "exec_cmd e (install_cmd e c r) w2")
        from ms Returned have ms': "make_snapshot e (destdir_pkg c r) (snapshot_tar c r) (w0\<lparr>files := fs1\<rparr>)
             = (Returned (), w2)" by simp
        have b: "runs_only ?X w2 w3" by (rule runs_only_exec [OF hook]) simp
        have c: "runs_only ?X w3 (snd (cmd_install e c r w))"
          by (rule runs_only_mono [OF cmd_install_tail [OF rm' Some ms' hook]]) blast
        from a b c show ?thesis by (blast intro: runs_only_trans)
      qed
    qed
  qed
qed

subsection \<open>Remove\<close>

lemma run_postremove_runs: "runs_only {postremove r} w (run_postremove e r w)"
proof (cases "postremove r = []")
  case True
  then show ?thesis by (simp add: run_postremove_def runs_only_same)
next
  case False
  have "runs_only {postremove r} w (snd (exec_cmd e (postremove r) w))"
    by (rule runs_only_exec [OF prod.collapse [symmetric]]) simp
  with False show ?thesis by (simp add: run_postremove_def)
qed

lemma cmd_remove_tail:
  assumes ms: "make_snapshot e (destdir_pkg c r) (snapshot_tar c r) w = (Returned (), w1)"
  shows "runs_only {postremove r} w1 (snd (cmd_remove e c r w))"
proof (cases "fs_exists (files w1) (install_manifest c r)")
  case True
  let ?X = "{postremove r}"
  let ?wm = "w1\<lparr>files := unlink_listed (destdir_pkg c r) (install_manifest c r) (files w1)\<rparr>"
  obtain del w2 where rm: "fs_remove_all e (destdir_pkg c r) ?wm = (del, w2)"
    by (cases "fs_remove_all e (destdir_pkg c r) ?wm")
  have "logv w2 = logv ?wm" by (rule fs_remove_all_log [OF rm])
  then have l: "logv w2 = logv w1" by simp
  show ?thesis
  proof (cases del)
    case (Threw m)
    with ms True rm have "snd (cmd_remove e c r w) = w2" by (simp add: cmd_remove_def Let_def)
    with l show ?thesis by (simp add: runs_only_same)
  next
    case (Returned u)
    let ?w3 = "log_ok (''Removido DESTDIR: '' @ destdir_pkg c r) w2"
    from Returned ms True rm have "snd (cmd_remove e c r w) = run_postremove e r ?w3"
      by (simp add: cmd_remove_def Let_def)
    moreover have "runs_only ?X w1 w2" by (rule runs_only_same [OF l])
    moreover have "runs_only ?X w2 ?w3" by (rule runs_only_ok)
    moreover have "runs_only ?X ?w3 (run_postremove e r ?w3)" by (rule run_postremove_runs)
    ultimately show ?thesis by (auto intro: runs_only_trans)
  qed
next
  case False
  let ?X = "{postremove r}"
  let ?wm = "log_warn (''Manifesto n'' @ [CHR 0xC3, CHR 0xA3] @ ''o encontrado: '' @ install_manifest c r
                         @ '', limpando DESTDIR'') w1"
  obtain del w2 where rm: "fs_remove_all e (destdir_pkg c r) ?wm = (del, w2)"
    by (cases "fs_remove_all e (destdir_pkg c r) ?wm")
  have l: "logv w2 = logv ?wm" by (rule fs_remove_all_log [OF rm])
  have a: "runs_only ?X w1 ?wm" by (rule runs_only_warn)
  have b: "runs_only ?X ?wm w2" by (rule runs_only_same [OF l])
  show ?thesis
  proof (cases del)
    case (Threw m)
    with ms False rm have "snd (cmd_remove e c r w) = w2" by (simp add: cmd_remove_def Let_def)
    with a b show ?thesis by (auto intro: runs_only_trans)
  next
    case (Returned u)
    from Returned ms False rm have "snd (cmd_remove e c r w) = run_postremove e r w2"
      by (simp add: cmd_remove_def Let_def)
    moreover have "runs_only ?X w2 (run_postremove e r w2)" by (rule run_postremove_runs)
    ultimately show ?thesis using a b by (auto intro: runs_only_trans)
  qed
qed

text \<open>
  Claim C6, as the code has it. \<^verbatim>\<open>cmd_remove\<close> takes its snapshot, unlinks the files the
  manifest lists (or, without a manifest, writes one warning), deletes the root, and only
  then runs \<^verbatim>\<open>postremove\<close>, whose exit status it never reads. With \<open>w1\<close> the state after
  the snapshot step and \<open>w2\<close> the state after the deletion of the root:
  \<^item> when the snapshot step throws, \<^verbatim>\<open>cmd_remove\<close> throws the same, in state \<open>w1\<close>;
  \<^item> when the deletion of the root throws, \<^verbatim>\<open>cmd_remove\<close> throws the same, in state \<open>w2\<close>
    (what the deletion had removed by then stays removed), and no command was run since
    the snapshot step: \<^verbatim>\<open>postremove\<close> is not run;
  \<^item> otherwise the root is gone in \<open>w2\<close>, and \<^verbatim>\<open>cmd_remove\<close> returns 0 whatever
    \<^verbatim>\<open>postremove\<close> does: its final state is the one \<^verbatim>\<open>postremove\<close> leaves when run (if
    declared) after the deletion, so a failing \<^verbatim>\<open>postremove\<close> neither fails the removal
    nor brings it to undo anything.
\<close>

theorem remove_disregards_postremove:
  assumes ms: "make_snapshot e (destdir_pkg c r) (snapshot_tar c r) w = (res, w1)"
      and rm: "fs_remove_all e (destdir_pkg c r)
                 (if fs_exists (files w1) (install_manifest c r)
                  then w1\<lparr>files := unlink_listed (destdir_pkg c r) (install_manifest c r) (files w1)\<rparr>
                  else log_warn (''Manifesto n'' @ [CHR 0xC3, CHR 0xA3] @ ''o encontrado: ''
                                   @ install_manifest c r @ '', limpando DESTDIR'') w1)
               = (del, w2)"
  shows "(\<forall>m. res = Threw m \<longrightarrow> cmd_remove e c r w = (Threw m, w1))
       \<and> (\<forall>m. res = Returned () \<and> del = Threw m \<longrightarrow>
             cmd_remove e c r w = (Threw m, w2) \<and> commands_run w1 w2 = [])
       \<and> (res = Returned () \<and> del = Returned () \<longrightarrow>
             \<not> fs_exists (files w2) (destdir_pkg c r)
           \<and> commands_run w1 w2 = []
           \<and> (\<not> fs_exists (files w1) (install_manifest c r) \<longrightarrow>
                 logv w2 = logv w1 @ [''[WARN]: Manifesto n'' @ [CHR 0xC3, CHR 0xA3] @ ''o encontrado: ''
                                        @ install_manifest c r @ '', limpando DESTDIR''])
           \<and> cmd_remove e c r w =
               (Returned 0,
                (let w3 = (if fs_exists (files w1) (install_manifest c r)
                           then log_ok (''Removido DESTDIR: '' @ destdir_pkg c r) w2 else w2)
                 in if postremove r = [] then w3 else snd (exec_cmd e (postremove r) w3))))"
proof -
  let ?wm = "if fs_exists (files w1) (install_manifest c r)
             then w1\<lparr>files := unlink_listed (destdir_pkg c r) (install_manifest c r) (files w1)\<rparr>
             else log_warn (''Manifesto n'' @ [CHR 0xC3, CHR 0xA3] @ ''o encontrado: ''
                              @ install_manifest c r @ '', limpando DESTDIR'') w1"
  have l: "logv w2 = logv ?wm" by (rule fs_remove_all_log [OF rm])
  have quiet: "commands_run w1 w2 = []"
    using l by (simp add: commands_run_def log_warn_def log_write_def)
  have warn: "\<not> fs_exists (files w1) (install_manifest c r) \<longrightarrow>
                 logv w2 = logv w1 @ [''[WARN]: Manifesto n'' @ [CHR 0xC3, CHR 0xA3] @ ''o encontrado: ''
                                        @ install_manifest c r @ '', limpando DESTDIR'']"
    using l by (simp add: log_warn_def log_write_def)
  have a: "\<forall>m. res = Threw m \<longrightarrow> cmd_remove e c r w = (Threw m, w1)"
    using ms by (simp add: cmd_remove_def Let_def)
  have b: "\<forall>m. res = Returned () \<and> del = Threw m \<longrightarrow>
             cmd_remove e c r w = (Threw m, w2) \<and> commands_run w1 w2 = []"
    using ms rm quiet by (cases "fs_exists (files w1) (install_manifest c r)")
      (simp_all add: cmd_remove_def Let_def)
  have gone: "del = Returned () \<longrightarrow> \<not> fs_exists (files w2) (destdir_pkg c r)"
    using fs_remove_all_gone [of e "destdir_pkg c r" ?wm w2] rm by simp
  have ret: "res = Returned () \<and> del = Returned () \<longrightarrow>
           cmd_remove e c r w =
               (Returned 0,
                (let w3 = (if fs_exists (files w1) (install_manifest c r)
                           then log_ok (''Removido DESTDIR: '' @ destdir_pkg c r) w2 else w2)
                 in if postremove r = [] then w3 else snd (exec_cmd e (postremove r) w3)))"
    using ms rm by (cases "fs_exists (files w1) (install_manifest c r)")
      (simp_all add: cmd_remove_def run_postremove_def Let_def)
  from a b gone quiet warn ret show ?thesis by blast
qed

text \<open>
  A remove over an installed root with its manifest, where \<^verbatim>\<open>postremove\<close> exits with 1:
  the removal returns 0, the root is gone, and the two commands run are the archiver and
  the hook.
\<close>

theorem remove_disregards_postremove_witness:
  "fs_exists (files w_inst) (destdir_pkg cfg0 rcp_post)
   \<and> fst (exec_cmd env_post (postremove rcp_post) w_inst) = 1
   \<and> fst (cmd_remove env_post cfg0 rcp_post w_inst) = Returned 0
   \<and> \<not> fs_exists (files (snd (cmd_remove env_post cfg0 rcp_post w_inst))) (destdir_pkg cfg0 rcp_post)
   \<and> fs_lookup (files (snd (cmd_remove env_post cfg0 rcp_post w_inst))) ''cb/dd/p-1/keep/extra'' = None
   \<and> commands_run w_inst (snd (cmd_remove env_post cfg0 rcp_post w_inst))
       = [snapshot_zstd_cmd (destdir_pkg cfg0 rcp_post) (snapshot_tar cfg0 rcp_post), ''false'']"
proof -
  let ?D = "destdir_pkg cfg0 rcp_post" and ?M = "install_manifest cfg0 rcp_post"
  let ?w1 = "snd (make_snapshot env_post ?D (snapshot_tar cfg0 rcp_post) w_inst)"
  let ?wm = "if fs_exists (files ?w1) ?M
             then ?w1\<lparr>files := unlink_listed ?D ?M (files ?w1)\<rparr>
             else log_warn (''Manifesto n'' @ [CHR 0xC3, CHR 0xA3] @ ''o encontrado: ''
                              @ ?M @ '', limpando DESTDIR'') ?w1"
  have "fst (make_snapshot env_post ?D (snapshot_tar cfg0 rcp_post) w_inst) = Returned ()"
    by code_simp
  then have ms: "make_snapshot env_post ?D (snapshot_tar cfg0 rcp_post) w_inst = (Returned (), ?w1)"
    by (simp add: prod_eq_iff)
  have "fst (fs_remove_all env_post ?D ?wm) = Returned ()" by code_simp
  then have rm: "fs_remove_all env_post ?D ?wm = (Returned (), snd (fs_remove_all env_post ?D ?wm))"
    by (simp add: prod_eq_iff)
  from remove_disregards_postremove [OF ms rm]
  have a: "fst (cmd_remove env_post cfg0 rcp_post w_inst) = Returned 0" by simp
  have b: "fs_exists (files w_inst) ?D" by code_simp
  have c: "fst (exec_cmd env_post (postremove rcp_post) w_inst) = 1" by code_simp
  have d: "\<not> fs_exists (files (snd (cmd_remove env_post cfg0 rcp_post w_inst))) ?D" by code_simp
  have f: "fs_lookup (files (snd (cmd_remove env_post cfg0 rcp_post w_inst))) ''cb/dd/p-1/keep/extra'' = None"
    by code_simp
  have g: "commands_run w_inst (snd (cmd_remove env_post cfg0 rcp_post w_inst))
       = [snapshot_zstd_cmd ?D (snapshot_tar cfg0 rcp_post), ''false'']" by code_simp
  from a b c d f g show ?thesis by blast
qed

text \<open>
  Claim C6 as stated fails: a remove can fail with no \<^verbatim>\<open>postremove\<close> hook declared at
  all. With no manifest, a failing archiver makes \<^verbatim>\<open>cmd_remove\<close> throw in front of the
  warning, and the root is still there. With a manifest, a root that holds an entry the
  operating system does not let go makes \<^verbatim>\<open>cmd_remove\<close> throw in the deletion: the
  archive is written, \<open>doc\<close> is deleted, the root and \<open>keep/extra\<close> are still there.
\<close>

theorem remove_fails_without_postremove:
  "postremove rcp0 = []
   \<and> \<not> fs_exists (files w_old) (install_manifest cfg0 rcp0)
   \<and> fst (cmd_remove env_tarfail cfg0 rcp0 w_old) = Threw ''Falha em: snapshot zstd (rc=2)''
   \<and> filter (prefix ''[WARN]'') (logv (snd (cmd_remove env_tarfail cfg0 rcp0 w_old))) = []
   \<and> fs_exists (files (snd (cmd_remove env_tarfail cfg0 rcp0 w_old))) (destdir_pkg cfg0 rcp0)
   \<and> fs_exists (files w_inst) (install_manifest cfg0 rcp0)
   \<and> fst (cmd_remove env_locked cfg0 rcp0 w_inst) = Threw fs_error
   \<and> fs_exists (files (snd (cmd_remove env_locked cfg0 rcp0 w_inst))) (snapshot_tar cfg0 rcp0)
   \<and> fs_exists (files (snd (cmd_remove env_locked cfg0 rcp0 w_inst))) (destdir_pkg cfg0 rcp0)
   \<and> fs_lookup (files (snd (cmd_remove env_locked cfg0 rcp0 w_inst))) ''cb/dd/p-1/doc'' = None
   \<and> fs_lookup (files (snd (cmd_remove env_locked cfg0 rcp0 w_inst))) ''cb/dd/p-1/keep/extra''
       = Some (File ''x'')"
  by code_simp

lemma cmd_remove_runs:
  "runs_only {snapshot_zstd_cmd (destdir_pkg c r) (snapshot_tar c r),
              snapshot_gzip_cmd (destdir_pkg c r) (snapshot_tar c r),
              postremove r} w (snd (cmd_remove e c r w))"
  (is "runs_only ?X w _")
proof -
  obtain res w1 where ms: "make_snapshot e (destdir_pkg c r) (snapshot_tar c r) w = (res, w1)"
    by (cases "make_snapshot e (destdir_pkg c r) (snapshot_tar c r) w")
  have a: "runs_only ?X w w1" by (rule runs_only_mono [OF make_snapshot_runs [OF ms]]) simp
  show ?thesis
  proof (cases res)
    case (Threw m)
    with ms have "cmd_remove e c r w = (Threw m, w1)" by (simp add: cmd_remove_def Let_def)
    with a show ?thesis by simp
  next
    case (Returned u)
    with ms have ms': "make_snapshot e (destdir_pkg c r) (snapshot_tar c r) w = (Returned (), w1)"
      by simp
    have "runs_only ?X w1 (snd (cmd_remove e c r w))"
      by (rule runs_only_mono [OF cmd_remove_tail [OF ms']]) simp
    with a show ?thesis by (rule runs_only_trans)
  qed
qed

subsection \<open>One archive path for remove and install\<close>

lemma cmd_remove_log_after_snapshot:
  assumes "make_snapshot e (destdir_pkg c r) (snapshot_tar c r) w = (res, w1)"
  shows "prefix (logv w1) (logv (snd (cmd_remove e c r w)))"
proof (cases res)
  case (Threw m)
  with assms show ?thesis by (simp add: cmd_remove_def Let_def)
next
  case (Returned u)
  with assms have ms: "make_snapshot e (destdir_pkg c r) (snapshot_tar c r) w = (Returned (), w1)" by simp
  from cmd_remove_tail [OF ms] show ?thesis by (simp add: runs_only_def)
qed

lemma cmd_remove_snapshots_nonempty_root:
  assumes mk: "fs_create_directories (files w) (parent_path (snapshot_tar c r)) = Some fs1"
      and ne: "fs_exists fs1 (destdir_pkg c r)" "\<not> fs_is_empty fs1 (destdir_pkg c r)"
  shows "commands_run w (snd (cmd_remove e c r w)) \<noteq> []
       \<and> hd (commands_run w (snd (cmd_remove e c r w)))
           = (if has_tool e ''zstd'' then snapshot_zstd_cmd (destdir_pkg c r) (snapshot_tar c r)
              else snapshot_gzip_cmd (destdir_pkg c r) (snapshot_tar c r))"
proof -
  let ?cmd = "if has_tool e ''zstd'' then snapshot_zstd_cmd (destdir_pkg c r) (snapshot_tar c r)
              else snapshot_gzip_cmd (destdir_pkg c r) (snapshot_tar c r)"
  let ?w1 = "w\<lparr>files := fs1\<rparr>"
  obtain rc w2 where x: "exec_cmd e ?cmd ?w1 = (rc, w2)" by (cases "exec_cmd e ?cmd ?w1")
  have "snd (make_snapshot e (destdir_pkg c r) (snapshot_tar c r) w) = w2"
    using mk ne x by (auto simp: make_snapshot_def Let_def exec_cmd_strict_def)
  then have "make_snapshot e (destdir_pkg c r) (snapshot_tar c r) w
      = (fst (make_snapshot e (destdir_pkg c r) (snapshot_tar c r) w), w2)"
    by (simp add: prod_eq_iff)
  then have "prefix (logv w2) (logv (snd (cmd_remove e c r w)))"
    by (rule cmd_remove_log_after_snapshot)
  from commands_run_first [OF _ x this, of w] show ?thesis by simp
qed

lemma contains_mid: "contains (a @ s @ b) s"
  unfolding contains_def by (rule sublist_appendI)

text \<open>
  Claim C9. With \<open>D\<close> the installation root and \<open>S\<close> the path \<^verbatim>\<open>snapshot_tar(c, r)\<close> of a
  name-version: the only archive commands \<^verbatim>\<open>cmd_remove\<close> can run are the two snapshot
  commands on \<open>D\<close> and \<open>S\<close>, the only ones \<^verbatim>\<open>cmd_install\<close> can run are those two and the
  two restore commands on \<open>D\<close> and \<open>S\<close>; a remove over a non-empty root does run the snapshot
  command, first; and the snapshot and the restore command of each format name the same
  file, \<open>S\<close> for zstd and \<open>S\<close> with its extension replaced by \<^verbatim>\<open>.tar.gz\<close> for gzip. So the
  archive a remove writes is the one the rollback of a later install reads.
\<close>

theorem remove_and_install_share_snapshot_path:
  "runs_only {snapshot_zstd_cmd (destdir_pkg c r) (snapshot_tar c r),
              snapshot_gzip_cmd (destdir_pkg c r) (snapshot_tar c r),
              postremove r} w (snd (cmd_remove e c r w))
   \<and> runs_only ({snapshot_zstd_cmd (destdir_pkg c r) (snapshot_tar c r),
                 snapshot_gzip_cmd (destdir_pkg c r) (snapshot_tar c r),
                 install_cmd e c r} \<union> install_tail_cmds c r) w (snd (cmd_install e c r w))
   \<and> (fs_create_directories (files w) (parent_path (snapshot_tar c r)) = Some fs1
        \<and> fs_exists fs1 (destdir_pkg c r) \<and> \<not> fs_is_empty fs1 (destdir_pkg c r)
      \<longrightarrow> commands_run w (snd (cmd_remove e c r w)) \<noteq> []
          \<and> hd (commands_run w (snd (cmd_remove e c r w)))
              = (if has_tool e ''zstd'' then snapshot_zstd_cmd (destdir_pkg c r) (snapshot_tar c r)
                 else snapshot_gzip_cmd (destdir_pkg c r) (snapshot_tar c r)))
   \<and> contains (snapshot_zstd_cmd (destdir_pkg c r) (snapshot_tar c r)) (snapshot_tar c r)
   \<and> contains (restore_zstd_cmd (destdir_pkg c r) (snapshot_tar c r)) (snapshot_tar c r)
   \<and> contains (snapshot_gzip_cmd (destdir_pkg c r) (snapshot_tar c r))
        (replace_extension (snapshot_tar c r) ''.tar.gz'')
   \<and> contains (restore_gzip_cmd (destdir_pkg c r) (snapshot_tar c r))
        (replace_extension (snapshot_tar c r) ''.tar.gz'')"
proof -
  let ?D = "destdir_pkg c r" and ?S = "snapshot_tar c r"
  have z1: "contains (snapshot_zstd_cmd ?D ?S) ?S"
    using contains_mid [of "''bash -lc '' @ sq @ ''cd '' @ ?D @ '' && tar -cf - . '' @ '' | zstd -cq > '' @ sq" ?S "sq @ sq"]
    by (simp add: snapshot_zstd_cmd_def quoted_def)
  have z2: "contains (restore_zstd_cmd ?D ?S) ?S"
    using contains_mid [of "''bash -lc '' @ sq @ ''cd '' @ ?D @ '' && zstd -dc < ''" ?S "'' | tar -xf -'' @ sq"]
    by (simp add: restore_zstd_cmd_def)
  have g1: "contains (snapshot_gzip_cmd ?D ?S) (replace_extension ?S ''.tar.gz'')"
    using contains_mid [of "''bash -lc '' @ sq @ ''cd '' @ ?D @ '' && tar -czf ''"
                            "replace_extension ?S ''.tar.gz''" "'' .'' @ sq"]
    by (simp add: snapshot_gzip_cmd_def)
  have g2: "contains (restore_gzip_cmd ?D ?S) (replace_extension ?S ''.tar.gz'')"
    using contains_mid [of "''bash -lc '' @ sq @ ''cd '' @ ?D @ '' && tar -xzf ''"
                            "replace_extension ?S ''.tar.gz''" sq]
    by (simp add: restore_gzip_cmd_def)
  show ?thesis
    using cmd_remove_runs [of c r w e] cmd_install_runs [of c r e w]
      cmd_remove_snapshots_nonempty_root [of w c r fs1 e] z1 z2 g1 g2
    by blast
qed

text \<open>
  The scenario: a remove over a root holding \<open>old\<close> writes the archive; the install that
  follows fails in its hook and its rollback unpacks that archive, so the root ends up with
  the removed file \<open>old\<close>.
\<close>

theorem remove_and_install_share_snapshot_path_witness:
  "commands_run w_old (snd (cmd_remove env_arch cfg0 rcp0 w_old))
     = [snapshot_zstd_cmd (destdir_pkg cfg0 rcp0) (snapshot_tar cfg0 rcp0)]
   \<and> hd (commands_run w_old (snd (cmd_remove env_arch cfg0 rcp0 w_old)))
       = snapshot_zstd_cmd (destdir_pkg cfg0 rcp0) (snapshot_tar cfg0 rcp0)
   \<and> commands_run (snd (cmd_remove env_arch cfg0 rcp0 w_old))
        (snd (cmd_install env_arch cfg0 rcp0 (snd (cmd_remove env_arch cfg0 rcp0 w_old))))
     = [install_cmd env_arch cfg0 rcp0,
        restore_zstd_cmd (destdir_pkg cfg0 rcp0) (snapshot_tar cfg0 rcp0)]
   \<and> fs_lookup (files (snd (cmd_install env_arch cfg0 rcp0 (snd (cmd_remove env_arch cfg0 rcp0 w_old)))))
        ''cb/dd/p-1/old'' = Some (File ''v1'')"
proof -
  have mk: "fs_create_directories (files w_old) (parent_path (snapshot_tar cfg0 rcp0))
      = Some [(''cb'', Dir), (''cb/dd'', Dir), (''cb/dd/p-1'', Dir), (''cb/dd/p-1/old'', File ''v1''),
              (''cb/sn'', Dir)]" by code_simp
  have ne: "fs_exists [(''cb'', Dir), (''cb/dd'', Dir), (''cb/dd/p-1'', Dir), (''cb/dd/p-1/old'', File ''v1''),
              (''cb/sn'', Dir)] (destdir_pkg cfg0 rcp0)"
     "\<not> fs_is_empty [(''cb'', Dir), (''cb/dd'', Dir), (''cb/dd/p-1'', Dir), (''cb/dd/p-1/old'', File ''v1''),
              (''cb/sn'', Dir)] (destdir_pkg cfg0 rcp0)" by code_simp+
  have z: "has_tool env_arch ''zstd''" by code_simp
  from remove_and_install_share_snapshot_path [of cfg0 rcp0 w_old env_arch] mk ne z
  have a: "hd (commands_run w_old (snd (cmd_remove env_arch cfg0 rcp0 w_old)))
       = snapshot_zstd_cmd (destdir_pkg cfg0 rcp0) (snapshot_tar cfg0 rcp0)"
    by simp
  have b: "commands_run w_old (snd (cmd_remove env_arch cfg0 rcp0 w_old))
     = [snapshot_zstd_cmd (destdir_pkg cfg0 rcp0) (snapshot_tar cfg0 rcp0)]" by code_simp
  have c: "commands_run (snd (cmd_remove env_arch cfg0 rcp0 w_old))
        (snd (cmd_install env_arch cfg0 rcp0 (snd (cmd_remove env_arch cfg0 rcp0 w_old))))
     = [install_cmd env_arch cfg0 rcp0,
        restore_zstd_cmd (destdir_pkg cfg0 rcp0) (snapshot_tar cfg0 rcp0)]" by code_simp
  have d: "fs_lookup (files (snd (cmd_install env_arch cfg0 rcp0 (snd (cmd_remove env_arch cfg0 rcp0 w_old)))))
        ''cb/dd/p-1/old'' = Some (File ''v1'')" by code_simp
  from a b c d show ?thesis by blast
qed

subsection \<open>Reverse dependencies\<close>

lemma dep_insert_commute:
  "dep_insert l1 b1 (dep_insert l2 b2 m) = dep_insert l2 b2 (dep_insert l1 b1 m)"
  by (auto simp: dep_insert_def fun_eq_iff split: option.splits)

lemma revdep_line_commute:
  "revdep_line b1 x \<circ> revdep_line b2 y = revdep_line b2 y \<circ> revdep_line b1 x"
  by (auto simp: revdep_line_def Let_def fun_eq_iff dep_insert_commute)

lemma revdep_lines_commute:
  "fold (revdep_line b1) xs \<circ> fold (revdep_line b2) ys
     = fold (revdep_line b2) ys \<circ> fold (revdep_line b1) xs"
proof (rule fold_commute)
  fix y assume "y \<in> set ys"
  show "fold (revdep_line b1) xs \<circ> revdep_line b2 y = revdep_line b2 y \<circ> fold (revdep_line b1) xs"
    by (rule fold_commute [symmetric]) (rule revdep_line_commute)
qed

lemma revdep_file_commute:
  "revdep_file e fs dest p \<circ> revdep_file e fs dest q = revdep_file e fs dest q \<circ> revdep_file e fs dest p"
proof -
  have "\<And>m. revdep_file e fs dest p (revdep_file e fs dest q m)
            = revdep_file e fs dest q (revdep_file e fs dest p m)"
    using revdep_lines_commute [of "relative_to p dest" "ldd_lines e fs p"
                                   "relative_to q dest" "ldd_lines e fs q"]
    by (simp add: revdep_file_def fun_eq_iff)
  then show ?thesis by (simp add: fun_eq_iff)
qed

lemma revdep_scan_permuted:
  assumes "mset entries' = mset entries"
  shows "revdep_scan e fs dest entries' = revdep_scan e fs dest entries"
proof -
  have "fold (revdep_file e fs dest) entries' = fold (revdep_file e fs dest) entries"
    by (rule fold_multiset_equiv [OF revdep_file_commute assms])
  then show ?thesis by (simp add: revdep_scan_def)
qed

lemma finite_deps_insert: "finite_deps m \<Longrightarrow> finite_deps (dep_insert lib bin m)"
  by (auto simp: finite_deps_def dep_insert_def ran_def split: option.splits if_splits)

lemma finite_deps_lines: "finite_deps m \<Longrightarrow> finite_deps (fold (revdep_line bin) ls m)"
  by (induction ls arbitrary: m) (auto simp: revdep_line_def Let_def finite_deps_insert)

lemma finite_deps_file: "finite_deps m \<Longrightarrow> finite_deps (revdep_file e fs dest p m)"
  by (simp add: revdep_file_def finite_deps_lines)

lemma finite_deps_fold: "finite_deps m \<Longrightarrow> finite_deps (fold (revdep_file e fs dest) ps m)"
  by (induction ps arbitrary: m) (auto simp: finite_deps_file)

lemma finite_deps_scan: "finite_deps (revdep_scan e fs dest entries)"
  unfolding revdep_scan_def by (rule finite_deps_fold) (simp add: finite_deps_def)

lemma revdep_table_sorted:
  assumes "finite_deps m"
  shows "sorted (map fst (revdep_table m)) \<and> distinct (map fst (revdep_table m))
       \<and> set (map fst (revdep_table m)) = dom m
       \<and> (\<forall>(lib, bins) \<in> set (revdep_table m).
             sorted bins \<and> distinct bins \<and> m lib = Some (set bins))"
proof -
  have k: "map fst (revdep_table m) = sorted_list_of_set (dom m)"
    by (simp add: revdep_table_def comp_def)
  have "\<And>lib bins. (lib, bins) \<in> set (revdep_table m) \<Longrightarrow>
           sorted bins \<and> distinct bins \<and> m lib = Some (set bins)"
  proof -
    fix lib bins assume "(lib, bins) \<in> set (revdep_table m)"
    then have l: "lib \<in> dom m" and b: "bins = sorted_list_of_set (case m lib of None \<Rightarrow> {} | Some s \<Rightarrow> s)"
      using assms by (auto simp: revdep_table_def finite_deps_def)
    from l obtain s where s: "m lib = Some s" by auto
    with assms have "finite s" by (auto simp: finite_deps_def ran_def)
    with b s show "sorted bins \<and> distinct bins \<and> m lib = Some (set bins)" by simp
  qed
  then show ?thesis using assms unfolding k by (auto simp: finite_deps_def)
qed

text \<open>
  Claim C8. The mapping \<^verbatim>\<open>cmd_revdep\<close> builds does not depend on the order in which the
  files under the root are enumerated: any two enumerations of the same entries give the
  same mapping and the same printed report. The report lists the libraries in ascending
  order, each once, and for each library its dependents (paths relative to the root) in
  ascending order, each once. For a root that is a directory the output of \<^verbatim>\<open>cmd_revdep\<close> is the
  report for any reordering of the enumeration. (What \<^verbatim>\<open>ldd\<close> prints for a file is taken
  as a function of the file system and the path.)
\<close>

theorem revdep_order_independent:
  assumes "mset entries' = mset entries"
  shows "revdep_scan e fs dest entries' = revdep_scan e fs dest entries
       \<and> revdep_report (revdep_scan e fs dest entries') = revdep_report (revdep_scan e fs dest entries)
       \<and> sorted (map fst (revdep_table (revdep_scan e fs dest entries)))
       \<and> distinct (map fst (revdep_table (revdep_scan e fs dest entries)))
       \<and> set (map fst (revdep_table (revdep_scan e fs dest entries))) = dom (revdep_scan e fs dest entries)
       \<and> (\<forall>(lib, bins) \<in> set (revdep_table (revdep_scan e fs dest entries)).
             sorted bins \<and> distinct bins \<and> revdep_scan e fs dest entries lib = Some (set bins))
       \<and> (entries = fs_recursive_list fs dest \<and> fs = files w \<and> dest = destdir_pkg c r
            \<and> fs_is_directory (files w) (destdir_pkg c r)
          \<longrightarrow> cmd_revdep e c r w = (Returned 0, revdep_report (revdep_scan e fs dest entries'), w))"
proof -
  note p = revdep_scan_permuted [OF assms, of e fs dest]
  note t = revdep_table_sorted [OF finite_deps_scan, of e fs dest entries]
  have "cmd_revdep e c r w = (Returned 0, revdep_report (revdep_scan e fs dest entries'), w)"
    if "entries = fs_recursive_list fs dest" "fs = files w" "dest = destdir_pkg c r"
       "fs_is_directory (files w) (destdir_pkg c r)"
    using that p by (simp add: cmd_revdep_def Let_def fs_is_directory_def fs_exists_def)
  with p t show ?thesis by simp
qed

theorem revdep_order_independent_witness:
  "revdep_scan env_ldd fs_bins ''cb/dd/p-1'' [''cb/dd/p-1/bin/a'', ''cb/dd/p-1/bin/b'']
     = revdep_scan env_ldd fs_bins ''cb/dd/p-1'' [''cb/dd/p-1/bin/b'', ''cb/dd/p-1/bin/a'']
   \<and> revdep_scan env_ldd fs_bins ''cb/dd/p-1'' [''cb/dd/p-1/bin/b'', ''cb/dd/p-1/bin/a''] ''libc.so.6''
     = Some {''bin/a'', ''bin/b''}"
proof -
  have m: "mset [''cb/dd/p-1/bin/a'', ''cb/dd/p-1/bin/b''] = mset [''cb/dd/p-1/bin/b'', ''cb/dd/p-1/bin/a'']"
    by simp
  have fa: "fs_is_regular_file fs_bins ''cb/dd/p-1/bin/a'' \<and> is_elf fs_bins ''cb/dd/p-1/bin/a''"
    by code_simp
  have fb: "fs_is_regular_file fs_bins ''cb/dd/p-1/bin/b'' \<and> is_elf fs_bins ''cb/dd/p-1/bin/b''"
    by code_simp
  have ra: "relative_to ''cb/dd/p-1/bin/a'' ''cb/dd/p-1'' = ''bin/a''" by code_simp
  have rb: "relative_to ''cb/dd/p-1/bin/b'' ''cb/dd/p-1'' = ''bin/b''" by code_simp
  have v: "revdep_scan env_ldd fs_bins ''cb/dd/p-1'' [''cb/dd/p-1/bin/b'', ''cb/dd/p-1/bin/a''] ''libc.so.6''
     = Some {''bin/a'', ''bin/b''}"
    by (simp add: revdep_scan_def revdep_file_def revdep_line_def dep_insert_def fa fb ra rb
      env_ldd_def erase_spaces_def isspace_def Let_def insert_commute)
  from revdep_order_independent [OF m, of env_ldd fs_bins "''cb/dd/p-1''"] v
  show ?thesis by simp
qed

end
